theory Spec2Isabelle
  imports Complex_Main
begin

section \<open>JavaScript values used by tle.js\<close>

text \<open>
  Modelling conventions.
  \<^item> A JavaScript string is a \<open>string\<close>: a list of code units, each below 256 (the
    Latin-1 part of UTF-16, which holds every character of the TLE format).
  \<^item> A JavaScript number is a \<open>real\<close> (or an \<open>int\<close> where the code only ever holds
    integers). The rounding of IEEE doubles is modelled where a result depends on it, in
    \<open>dayOfYearToTimeStamp\<close> (by \<open>roundDouble\<close>); elsewhere arithmetic is exact. \<open>NaN\<close> and
    the infinities are separate constructors where the code can produce or test them.
  \<^item> A thrown exception is a value \<open>Inl e\<close> of a sum type; a normal return is \<open>Inr v\<close>.
\<close>

datatype error =
    Error string            \<comment> \<open>\<open>throw new Error(msg)\<close>\<close>
  | TypeError string        \<comment> \<open>raised by the engine: property of \<open>undefined\<close>/\<open>null\<close>, call of a non-function\<close>
  | ReferenceError string   \<comment> \<open>raised by the engine: an identifier with no binding\<close>

datatype jsnum = Num real | NaN | PosInfinity | NegInfinity

text \<open>\<open>WhiteSpace\<close> and \<open>LineTerminator\<close> of ECMAScript, below code unit 256: TAB, LF, VT,
  FF, CR, SP and NBSP. \<open>String.prototype.trim\<close> and \<open>parseFloat\<close> strip exactly these.\<close>

definition isWhiteSpace :: "char \<Rightarrow> bool" where
  "isWhiteSpace c = (let n = (of_char c :: nat) in
     n = 9 \<or> n = 10 \<or> n = 11 \<or> n = 12 \<or> n = 13 \<or> n = 32 \<or> n = 160)"

definition isDigit :: "char \<Rightarrow> bool" where
  "isDigit c = (let n = (of_char c :: nat) in 48 \<le> n \<and> n \<le> 57)"

definition digitVal :: "char \<Rightarrow> nat" where
  "digitVal c = of_char c - 48"

definition digitsVal :: "string \<Rightarrow> nat" where
  "digitsVal ds = foldl (\<lambda>a c. 10 * a + digitVal c) 0 ds"

text \<open>\<open>s.trim()\<close>\<close>

definition trim :: "string \<Rightarrow> string" where
  "trim s = rev (dropWhile isWhiteSpace (rev (dropWhile isWhiteSpace s)))"

text \<open>\<open>s.substr(start, length)\<close> for non-negative arguments: at most \<open>length\<close> code units
  from index \<open>start\<close>, fewer (or none) when the string ends before.\<close>

definition substr :: "string \<Rightarrow> nat \<Rightarrow> nat \<Rightarrow> string" where
  "substr s from n = take n (drop from s)"

text \<open>\<open>s.split(sep)\<close> for a non-empty separator: \<open>splitAux sep cur rest\<close> scans \<open>rest\<close> with
  the current piece \<open>cur\<close> held in reverse. An empty separator splits into code units.\<close>

fun splitAux :: "string \<Rightarrow> string \<Rightarrow> string \<Rightarrow> string list" where
  "splitAux sep cur [] = [rev cur]"
| "splitAux sep cur (c # cs) =
     (if sep \<noteq> [] \<and> take (length sep) (c # cs) = sep
      then rev cur # splitAux sep [] (drop (length sep) (c # cs))
      else splitAux sep (c # cur) cs)"

definition str_split :: "string \<Rightarrow> string \<Rightarrow> string list" where
  "str_split sep s = (if sep = [] then map (\<lambda>c. [c]) s else splitAux sep [] s)"

text \<open>\<open>parseFloat(s)\<close>: skip leading white space, read the longest prefix that is a
  \<open>StrDecimalLiteral\<close> (sign, \<open>Infinity\<close> or digits with an optional fraction and an
  optional exponent) and return its value; \<open>NaN\<close> when there is no such prefix. A value
  whose magnitude reaches \<open>2^1024 - 2^970\<close> rounds to an infinity.\<close>

definition parseExponent :: "string \<Rightarrow> int" where
  "parseExponent s =
     (case s of
        [] \<Rightarrow> 0
      | e # r \<Rightarrow>
          if e = CHR ''e'' \<or> e = CHR ''E'' then
            (let neg = (take 1 r = ''-'');
                 r' = (if take 1 r = ''-'' \<or> take 1 r = ''+'' then drop 1 r else r);
                 ds = takeWhile isDigit r'
             in if ds = [] then 0
                else if neg then - int (digitsVal ds) else int (digitsVal ds))
          else 0)"

definition toDouble :: "real \<Rightarrow> jsnum" where
  "toDouble v =
     (if 2 ^ 1024 - 2 ^ 970 \<le> \<bar>v\<bar> then (if 0 < v then PosInfinity else NegInfinity)
      else Num v)"

definition parseFloat :: "string \<Rightarrow> jsnum" where
  "parseFloat s =
     (let t = dropWhile isWhiteSpace s;
          neg = (take 1 t = ''-'');
          u = (if take 1 t = ''-'' \<or> take 1 t = ''+'' then drop 1 t else t)
      in if take 8 u = ''Infinity'' then (if neg then NegInfinity else PosInfinity)
         else
           (let ip = takeWhile isDigit u;
                r1 = dropWhile isDigit u;
                hasDot = (take 1 r1 = ''.'');
                fp = (if hasDot then takeWhile isDigit (drop 1 r1) else []);
                r2 = (if hasDot then dropWhile isDigit (drop 1 r1) else r1)
            in if ip = [] \<and> fp = [] then NaN
               else
                 (let k = parseExponent r2 - int (length fp);
                      m = real (digitsVal (ip @ fp));
                      v = (if 0 \<le> k then m * 10 ^ nat k else m / 10 ^ nat (- k))
                  in toDouble (if neg then - v else v))))"

text \<open>The result of a field getter: a number, or the raw substring.\<close>

datatype fieldValue = FNum real | FStr string

text \<open>Decimal rendering of an array index in a template literal.\<close>

fun showNat :: "nat \<Rightarrow> string" where
  "showNat n =
     (if n < 10 then [char_of (48 + n)] else showNat (n div 10) @ [char_of (48 + n mod 10)])"

declare showNat.simps [simp del]

section \<open>The field table\<close>

record fieldSpec =
  start :: nat
  length' :: nat

definition tleLines :: "(string \<times> (string \<times> fieldSpec) list) list" where
  "tleLines =
     [(''line1'',
        [(''lineNumber1'', \<lparr>start = 0, length' = 1\<rparr>),
         (''satelliteNumber'', \<lparr>start = 2, length' = 5\<rparr>),
         (''classification'', \<lparr>start = 7, length' = 1\<rparr>),
         (''intDesignatorYear'', \<lparr>start = 9, length' = 2\<rparr>),
         (''intDesignatorLaunchNumber'', \<lparr>start = 11, length' = 3\<rparr>),
         (''intDesignatorPieceOfLaunch'', \<lparr>start = 14, length' = 3\<rparr>),
         (''epochYear'', \<lparr>start = 18, length' = 2\<rparr>),
         (''epochDay'', \<lparr>start = 20, length' = 12\<rparr>),
         (''firstTimeDerivative'', \<lparr>start = 33, length' = 11\<rparr>),
         (''secondTimeDerivative'', \<lparr>start = 44, length' = 8\<rparr>),
         (''bstarDrag'', \<lparr>start = 53, length' = 8\<rparr>),
         (''numZero'', \<lparr>start = 62, length' = 1\<rparr>),
         (''tleSetNumber'', \<lparr>start = 64, length' = 4\<rparr>),
         (''checksum1'', \<lparr>start = 68, length' = 1\<rparr>)]),
      (''line2'',
        [(''lineNumber2'', \<lparr>start = 0, length' = 1\<rparr>),
         (''satelliteNumber2'', \<lparr>start = 2, length' = 5\<rparr>),
         (''inclination'', \<lparr>start = 8, length' = 8\<rparr>),
         (''rightAscension'', \<lparr>start = 17, length' = 8\<rparr>),
         (''eccentricity'', \<lparr>start = 26, length' = 7\<rparr>),
         (''perigee'', \<lparr>start = 34, length' = 8\<rparr>),
         (''meanAnomaly'', \<lparr>start = 43, length' = 8\<rparr>),
         (''meanMotion'', \<lparr>start = 52, length' = 11\<rparr>),
         (''revNumberAtEpoch'', \<lparr>start = 63, length' = 5\<rparr>),
         (''checksum2'', \<lparr>start = 68, length' = 1\<rparr>)])]"

section \<open>parseTLE\<close>

text \<open>The canonical record \<open>{name, arr}\<close>, and what a caller can pass as \<open>tle\<close>: a string, an
  array of strings, an object that has an \<open>arr\<close> array, \<open>null\<close>, or anything else (named by
  its \<open>typeof\<close>; an object without \<open>arr\<close> is \<open>TOther ''object''\<close>).\<close>

record parsedTLE =
  name :: string
  arr :: "string list"

datatype tle_input =
    TString string
  | TArray "string list"
  | TParsed parsedTLE
  | TNull
  | TOther string

text \<open>The part of \<open>parseTLE\<close> after the \<open>switch\<close>: the 2 and 3 line variants, and the trim.\<close>

definition handleVariants :: "string list \<Rightarrow> parsedTLE" where
  "handleVariants tleArr =
     (if length tleArr > 2
      then \<lparr>name = hd tleArr, arr = map trim (tl tleArr)\<rparr>
      else \<lparr>name = ''Unknown'', arr = map trim tleArr\<rparr>)"

definition parseTLE :: "tle_input \<Rightarrow> error + parsedTLE" where
  "parseTLE tle =
     (case tle of
        TParsed obj \<Rightarrow> Inr obj
      | TNull \<Rightarrow> Inl (TypeError ''Cannot read properties of null (reading arr)'')
      | TArray a \<Rightarrow> Inr (handleVariants a)
      | TString s \<Rightarrow> Inr (handleVariants (str_split [CHR 0x0A] s))
      | TOther tleType \<Rightarrow> Inl (Error (''TLE passed is invalid type '' @ tleType)))"

section \<open>tleLineChecksum\<close>

text \<open>
  \<open>charArr.reduce(callback)\<close> is called without an initial value: the accumulator starts
  as the first element of \<open>charArr\<close>, a one-character string, and the callback first runs
  on the second element. \<open>accum\<close> is the accumulator: still that first character, or the
  number a callback returned (\<open>None\<close> is \<open>NaN\<close>). The sums are non-negative integers far
  below \<open>2^53\<close> for every string an engine can hold, so they are exact, \<open>parseInt\<close> of such
  a number is the number, and \<open>%\<close> is \<open>mod\<close>.
\<close>

datatype accum = FirstChar char | Sum "int option"

text \<open>\<open>parseInt\<close> of a one-character string.\<close>

definition parseIntChar :: "char \<Rightarrow> int option" where
  "parseIntChar c = (if isDigit c then Some (int (digitVal c)) else None)"

fun parseIntAccum :: "accum \<Rightarrow> int option" where
  "parseIntAccum (FirstChar c) = parseIntChar c"
| "parseIntAccum (Sum n) = n"

text \<open>The callback \<open>(sum, val) => ...\<close>, with \<open>acc\<close> for \<open>sum\<close>.\<close>

definition checksumStep :: "accum \<Rightarrow> char \<Rightarrow> accum" where
  "checksumStep acc val =
     (let parsedVal = parseIntChar val;
          parsedSum = parseIntAccum acc
      in case parsedVal of
           Some v \<Rightarrow> Sum (map_option (\<lambda>s. s + v) parsedSum)
         | None \<Rightarrow>
             if val = CHR ''-'' then Sum (map_option (\<lambda>s. s + 1) parsedSum)
             else Sum parsedSum)"

text \<open>\<open>ToNumber\<close>, applied by \<open>checksum % 10\<close>: of a one-character string when \<open>reduce\<close>
  returned the lone element without calling the callback.\<close>

fun toNumberAccum :: "accum \<Rightarrow> int option" where
  "toNumberAccum (FirstChar c) =
     (if isDigit c then Some (int (digitVal c)) else if isWhiteSpace c then Some 0 else None)"
| "toNumberAccum (Sum n) = n"

definition tleLineChecksum :: "string \<Rightarrow> error + int option" where
  "tleLineChecksum tleLine =
     (let charArr = butlast tleLine
      in case charArr of
           [] \<Rightarrow> Inl (Error ''Character array empty!'')
         | c # cs \<Rightarrow>
             Inr (map_option (\<lambda>n. n mod 10) (toNumberAccum (foldl checksumStep (FirstChar c) cs))))"

text \<open>The checksum as the specification words it: drop the last character; a digit
  contributes its value, \<open>-\<close> contributes 1, every other character 0; sum modulo 10.\<close>

definition contribution :: "char \<Rightarrow> int" where
  "contribution c = (if isDigit c then int (digitVal c) else if c = CHR ''-'' then 1 else 0)"

definition spec_checksum :: "string \<Rightarrow> int" where
  "spec_checksum line = sum_list (map contribution (butlast line)) mod 10"

section \<open>The field getters\<close>

text \<open>\<open>toUpperCase\<close> of a one-character string, for the letters \<open>a\<close> to \<open>z\<close> (every other
  code unit of the field names is left as it is).\<close>

definition toUpperCase :: "string \<Rightarrow> string" where
  "toUpperCase s =
     map (\<lambda>c. if 97 \<le> (of_char c :: nat) \<and> (of_char c :: nat) \<le> 122
               then char_of ((of_char c :: nat) - 32) else c) s"

text \<open>\<open>toCamelCase(str, divider)\<close>; \<open>None\<close> is an omitted divider, and \<open>divider || '-'\<close>
  also replaces the empty string.\<close>

definition toCamelCase :: "string \<Rightarrow> string option \<Rightarrow> string" where
  "toCamelCase str divider =
     (let divider' = (case divider of None \<Rightarrow> ''-'' | Some d \<Rightarrow> if d = [] then ''-'' else d);
          bits = str_split divider' str
      in concat (hd bits #
           map (\<lambda>b. toUpperCase (substr b 0 1) @ substr b 1 (length b - 1)) (tl bits)))"

text \<open>The last two statements of a getter: \<open>parseFloat(substr)\<close>, kept when
  \<open>Number.isFinite\<close> holds of it, else \<open>substr\<close> itself.\<close>

definition fieldOutput :: "string \<Rightarrow> fieldValue" where
  "fieldOutput sub = (case parseFloat sub of Num v \<Rightarrow> FNum v | _ \<Rightarrow> FStr sub)"

text \<open>The closure \<open>(tle) => {...}\<close> that \<open>createTLEGetters\<close> installs for the property
  \<open>prop\<close> of \<open>tleLines[tleLine]\<close>; \<open>spec\<close> is \<open>tleLines[tleLine][prop]\<close>. An index past the
  end of \<open>tleArr\<close> reads \<open>undefined\<close>, and \<open>undefined.substr\<close> raises.\<close>

definition getter :: "string \<Rightarrow> fieldSpec \<Rightarrow> tle_input \<Rightarrow> error + fieldValue" where
  "getter tleLine spec tle =
     (case parseTLE tle of
        Inl e \<Rightarrow> Inl e
      | Inr parsed \<Rightarrow>
          (let tleArr = arr parsed;
               i = (if tleLine = ''line1'' then 0 else 1)
           in if i < length tleArr then
                (let line = tleArr ! i;
                     sub = substr line (start spec) (length' spec)
                 in Inr (fieldOutput sub))
              else Inl (TypeError ''Cannot read properties of undefined (reading substr)'')))"

text \<open>\<open>createTLEGetters\<close>: the methods it adds to the \<open>tle\<close> object, by name. A later
  assignment to the same name replaces an earlier one.\<close>

definition createTLEGetters :: "string \<rightharpoonup> (tle_input \<Rightarrow> error + fieldValue)" where
  "createTLEGetters =
     fold (\<lambda>(tleLine, props) self.
             fold (\<lambda>(prop, spec) self'.
                     self'(toCamelCase (''get-'' @ prop) None \<mapsto> getter tleLine spec))
                  props self)
          tleLines Map.empty"

text \<open>\<open>this[m](tle)\<close> for a getter name \<open>m\<close>.\<close>

definition callGetter :: "string \<Rightarrow> tle_input \<Rightarrow> error + fieldValue" where
  "callGetter m tle =
     (case createTLEGetters m of
        None \<Rightarrow> Inl (TypeError (m @ '' is not a function''))
      | Some g \<Rightarrow> g tle)"

section \<open>isValidTLE\<close>

text \<open>\<open>parsedChecksum === calculatedLineChecksum\<close> and \<open>parsedLineNumber === lineNumber\<close>:
  strict equality of a getter's result with a number (\<open>None\<close> is \<open>NaN\<close>, equal to nothing).\<close>

fun strictEq :: "fieldValue \<Rightarrow> int option \<Rightarrow> bool" where
  "strictEq (FNum v) (Some n) = (v = of_int n)"
| "strictEq _ _ = False"

text \<open>The \<open>forEach\<close> callback over \<open>parsedTLE.arr\<close>, from \<open>index\<close> on; \<open>isValid\<close> is the
  captured variable.\<close>

fun validateLines :: "parsedTLE \<Rightarrow> nat \<Rightarrow> string list \<Rightarrow> bool \<Rightarrow> error + bool" where
  "validateLines parsed index [] isValid = Inr isValid"
| "validateLines parsed index (line # rest) isValid =
     (if \<not> isValid then validateLines parsed (index + 1) rest isValid
      else
        (let lineNumber = index + 1 in
         case callGetter (''getLineNumber'' @ showNat lineNumber) (TParsed parsed) of
           Inl e \<Rightarrow> Inl e
         | Inr parsedLineNumber \<Rightarrow>
             (let lineNumberIsValid = strictEq parsedLineNumber (Some (int lineNumber)) in
              case tleLineChecksum (arr parsed ! index) of
                Inl e \<Rightarrow> Inl e
              | Inr calculatedLineChecksum \<Rightarrow>
                  (case callGetter (''getChecksum'' @ showNat lineNumber) (TParsed parsed) of
                     Inl e \<Rightarrow> Inl e
                   | Inr parsedChecksum \<Rightarrow>
                       (let checksumIsValid = strictEq parsedChecksum calculatedLineChecksum in
                        validateLines parsed (index + 1) rest
                          (if lineNumberIsValid \<and> checksumIsValid then isValid else False))))))"

definition isValidTLE :: "tle_input \<Rightarrow> error + bool" where
  "isValidTLE tle =
     (case parseTLE tle of
        Inl e \<Rightarrow> Inl e
      | Inr parsed \<Rightarrow>
          if length (arr parsed) \<noteq> 2 then Inr False
          else validateLines parsed 0 (arr parsed) True)"

text \<open>Validity as the specification words it, for line number \<open>n\<close>: the leading
  one-column field reads \<open>n\<close>, and the last character is a digit equal to the checksum of
  the line.\<close>

definition spec_lineValid :: "nat \<Rightarrow> string \<Rightarrow> bool" where
  "spec_lineValid n line =
     (take 1 line = showNat n \<and> line \<noteq> [] \<and> isDigit (last line) \<and>
      int (digitVal (last line)) = spec_checksum line)"

text \<open>A field's value as the specification words it: the characters of the columns
  \<open>start\<close> up to \<open>start + length\<close> (excluded), untrimmed; the number they parse to when it
  is finite, else those characters.\<close>

definition spec_fieldValue :: "string \<Rightarrow> fieldSpec \<Rightarrow> fieldValue" where
  "spec_fieldValue line spec =
     (let raw = map (\<lambda>i. line ! i) [start spec ..< start spec + length' spec]
      in case parseFloat raw of Num v \<Rightarrow> FNum v | _ \<Rightarrow> FStr raw)"

section \<open>dayOfYearToTimeStamp\<close>

text \<open>\<open>DayFromYear\<close> and \<open>TimeFromYear\<close> of ECMAScript: the time value, in milliseconds
  since 1970-01-01T00:00:00Z, of the start of a year in UTC.\<close>

definition DayFromYear :: "int \<Rightarrow> int" where
  "DayFromYear y =
     365 * (y - 1970) + (y - 1969) div 4 - (y - 1901) div 100 + (y - 1601) div 400"

definition TimeFromYear :: "int \<Rightarrow> int" where
  "TimeFromYear y = 86400000 * DayFromYear y"

text \<open>\<open>new Date('1/1/' + year + ' 0:0:0 Z').getTime()\<close>. The string is not in the ISO
  format, so its reading is left to the engine; engines read a four-digit year as that
  year, in UTC because of the \<open>Z\<close>. Other years (two-digit years get a century that
  depends on the engine) are not modelled: \<open>None\<close>.\<close>

definition yearStartTime :: "int \<Rightarrow> int option" where
  "yearStartTime year =
     (if 1000 \<le> year \<and> year \<le> 9999 then Some (TimeFromYear year) else None)"

text \<open>
  IEEE 754 double arithmetic: each operation returns the exact result rounded to the
  nearest double, ties to the even significand. \<open>roundPos x\<close> rounds a positive \<open>x\<close>: with
  \<open>e\<close> the binary exponent of \<open>x\<close> (at least -1022, where the subnormal numbers begin), the
  doubles around \<open>x\<close> are the multiples of \<open>2^(e - 52)\<close>. \<open>inDoubleRange\<close> holds of the exact
  results that round to a finite double; beyond it the engine returns an infinity.
\<close>

definition roundHalfEven :: "real \<Rightarrow> int" where
  "roundHalfEven y =
     (let f = \<lfloor>y\<rfloor>; r = y - real_of_int f
      in if r < 1 / 2 then f else if 1 / 2 < r then f + 1 else if even f then f else f + 1)"

definition roundPos :: "real \<Rightarrow> real" where
  "roundPos x =
     (let e = max \<lfloor>log 2 x\<rfloor> (- 1022);
          u = 2 powr real_of_int (e - 52)
      in u * real_of_int (roundHalfEven (x / u)))"

definition roundDouble :: "real \<Rightarrow> real" where
  "roundDouble x = (if x = 0 then 0 else if 0 < x then roundPos x else - roundPos (- x))"

definition inDoubleRange :: "real \<Rightarrow> bool" where
  "inDoubleRange x = (\<bar>x\<bar> < 2 ^ 1024 - 2 ^ 970)"

text \<open>\<open>dayOfYearToTimeStamp(dayOfYear, year)\<close>; \<open>currentYear\<close> is what
  \<open>(new Date()).getFullYear()\<close> returns, and an omitted or zero \<open>year\<close> is falsy. The
  subtraction, the product and the sum are double operations; \<open>dayMS\<close> and \<open>yearStart\<close> are
  integers that doubles hold exactly. \<open>None\<close> also stands for a result that leaves the
  range of the finite doubles.\<close>

definition dayOfYearToTimeStamp :: "int \<Rightarrow> real \<Rightarrow> int option \<Rightarrow> int option" where
  "dayOfYearToTimeStamp currentYear dayOfYear year =
     (let year' = (case year of None \<Rightarrow> currentYear | Some y \<Rightarrow> if y = 0 then currentYear else y);
          dayMS = 1000 * 60 * 60 * 24
      in case yearStartTime year' of
           None \<Rightarrow> None
         | Some yearStart \<Rightarrow>
             (let days = roundDouble (dayOfYear - 1);
                  ms = roundDouble (days * dayMS);
                  total = roundDouble (real_of_int yearStart + ms)
              in if inDoubleRange (dayOfYear - 1) \<and> inDoubleRange (days * dayMS)
                    \<and> inDoubleRange (real_of_int yearStart + ms)
                 then Some \<lfloor>total\<rfloor> else None))"

section \<open>getSatelliteInfo and the memoization cache\<close>

text \<open>The values exchanged with satellite.js.\<close>

record vec3 =
  vec_x :: real
  vec_y :: real
  vec_z :: real

record positionAndVelocity =
  position :: vec3
  velocity :: vec3

record geodetic =
  gd_longitude :: real
  gd_latitude :: real
  gd_height :: real

record lookAngles =
  la_azimuth :: real
  la_elevation :: real
  la_rangeSat :: real

text \<open>The object \<open>getSatelliteInfo\<close> returns and caches.\<close>

record observation =
  lng :: real
  lat :: real
  elevation :: real
  azimuth :: real
  range' :: real
  height :: real
  velocityKmS :: real

text \<open>
  What the code takes from outside: the functions of satellite.js that it calls, over
  satellite records of some type \<open>'r\<close>, and the engine's rendering of a number in a
  template literal. \<open>twoline2satrec\<close> receives \<open>tleArr[0]\<close> and \<open>tleArr[1]\<close>, which are
  \<open>undefined\<close> (\<open>None\<close>) past the end of the array. \<open>propagate\<close> and \<open>gstimeFromDate\<close>
  receive \<open>new Date(timestampCopy)\<close>, given here by the number \<open>timestampCopy\<close> it is
  built from. \<open>satError\<close> is the flag \<open>satellite.error\<close> as read after \<open>propagate\<close>.
\<close>

record 'r env =
  twoline2satrec :: "string option \<Rightarrow> string option \<Rightarrow> 'r"
  propagate :: "'r \<Rightarrow> real \<Rightarrow> positionAndVelocity"
  satError :: "'r \<Rightarrow> real \<Rightarrow> bool"
  gstimeFromDate :: "real \<Rightarrow> real"
  eciToEcf :: "vec3 \<Rightarrow> real \<Rightarrow> vec3"
  geodeticToEcf :: "geodetic \<Rightarrow> vec3"
  eciToGeodetic :: "vec3 \<Rightarrow> real \<Rightarrow> geodetic"
  ecfToLookAngles :: "geodetic \<Rightarrow> vec3 \<Rightarrow> lookAngles"
  dopplerFactor :: "vec3 \<Rightarrow> vec3 \<Rightarrow> vec3 \<Rightarrow> real"
  degreesLong :: "real \<Rightarrow> real"
  degreesLat :: "real \<Rightarrow> real"
  numToString :: "real \<Rightarrow> string"

type_synonym cache = "string \<rightharpoonup> observation"

text \<open>\<open>v || d\<close> for an optional number: omitted and \<open>0\<close> are falsy.\<close>

definition orDefault :: "real option \<Rightarrow> real \<Rightarrow> real" where
  "orDefault v d = (case v of None \<Rightarrow> d | Some r \<Rightarrow> if r = 0 then d else r)"

definition radiansToDegrees :: "real \<Rightarrow> real" where
  "radiansToDegrees radians = radians * (180 / pi)"

definition degreesToRadians :: "real \<Rightarrow> real" where
  "degreesToRadians degrees = degrees * (pi / 180)"

text \<open>\<open>${v}\<close> in the template literal of the cache key.\<close>

definition renderLine :: "string option \<Rightarrow> string" where
  "renderLine l = (case l of None \<Rightarrow> ''undefined'' | Some s \<Rightarrow> s)"

definition renderNum :: "'r env \<Rightarrow> real option \<Rightarrow> string" where
  "renderNum E v = (case v of None \<Rightarrow> ''undefined'' | Some r \<Rightarrow> numToString E r)"

definition element :: "string list \<Rightarrow> nat \<Rightarrow> string option" where
  "element a i = (if i < length a then Some (a ! i) else None)"

definition cacheKey ::
  "'r env \<Rightarrow> string list \<Rightarrow> real option \<Rightarrow> real option \<Rightarrow> real option \<Rightarrow> real option \<Rightarrow> string" where
  "cacheKey E tleArr timestamp observerLat observerLng observerHeight =
     ''getSatelliteInfo'' @ ''-'' @ renderLine (element tleArr 0) @ ''-'' @
     renderLine (element tleArr 1) @ ''-'' @ renderNum E timestamp @ ''-'' @
     renderNum E observerLat @ ''-'' @ renderNum E observerLng @ ''-'' @
     renderNum E observerHeight"

text \<open>The body of \<open>getSatelliteInfo\<close> after the cache lookup, up to the \<open>output\<close> object:
  \<open>time\<close> is \<open>timestampCopy\<close>.\<close>

definition computeInfo ::
  "'r env \<Rightarrow> string list \<Rightarrow> real \<Rightarrow> real option \<Rightarrow> real option \<Rightarrow> real option
     \<Rightarrow> error + observation" where
  "computeInfo E tleArr time observerLat observerLng observerHeight =
     (let obsLat = orDefault observerLat 36.9613422;
          obsLng = orDefault observerLng (- 122.0308);
          obsHeight = orDefault observerHeight 0.370;
          satrec = twoline2satrec E (element tleArr 0) (element tleArr 1);
          pv = propagate E satrec time
      in if satError E satrec time
         then Inl (Error ''Error: problematic TLE with unexpected eccentricity'')
         else
           (let positionEci = position pv;
                velocityEci = velocity pv;
                observerGd = \<lparr>gd_longitude = degreesToRadians obsLng,
                              gd_latitude = degreesToRadians obsLat,
                              gd_height = obsHeight\<rparr>;
                gmst = gstimeFromDate E time;
                positionEcf = eciToEcf E positionEci gmst;
                observerEcf = geodeticToEcf E observerGd;
                positionGd = eciToGeodetic E positionEci gmst;
                looks = ecfToLookAngles E observerGd positionEcf;
                doppler = dopplerFactor E observerEcf positionEci velocityEci;
                velocityKm = sqrt ((vec_x velocityEci)\<^sup>2 + (vec_y velocityEci)\<^sup>2
                                   + (vec_z velocityEci)\<^sup>2)
            in Inr \<lparr>lng = degreesLong E (gd_longitude positionGd),
                    lat = degreesLat E (gd_latitude positionGd),
                    elevation = radiansToDegrees (la_elevation looks),
                    azimuth = radiansToDegrees (la_azimuth looks),
                    range' = la_rangeSat looks,
                    height = gd_height positionGd,
                    velocityKmS = velocityKm\<rparr>))"

text \<open>\<open>getSatelliteInfo(tle, timestamp, observerLat, observerLng, observerHeight)\<close>, run
  when \<open>Date.now()\<close> is \<open>now\<close> and \<open>this.cache\<close> is \<open>c\<close>; it returns the result and the
  cache it leaves. A cached object is truthy, so a key that is present is a hit.\<close>

definition getSatelliteInfo ::
  "'r env \<Rightarrow> real \<Rightarrow> cache \<Rightarrow> tle_input \<Rightarrow> real option \<Rightarrow> real option \<Rightarrow> real option
     \<Rightarrow> real option \<Rightarrow> (error + observation) \<times> cache" where
  "getSatelliteInfo E now c tle timestamp observerLat observerLng observerHeight =
     (let timestampCopy = orDefault timestamp now
      in case parseTLE tle of
           Inl e \<Rightarrow> (Inl e, c)
         | Inr parsed \<Rightarrow>
             (let tleArr = arr parsed;
                  key = cacheKey E tleArr timestamp observerLat observerLng observerHeight
              in case c key of
                   Some cached \<Rightarrow> (Inr cached, c)
                 | None \<Rightarrow>
                     (case computeInfo E tleArr timestampCopy observerLat observerLng
                             observerHeight of
                        Inl e \<Rightarrow> (Inl e, c)
                      | Inr output \<Rightarrow> (Inr output, c(key \<mapsto> output)))))"

text \<open>A cache entry is current for a call at time \<open>now\<close> when the cache holds nothing under
  the key of that call, or holds the observation the call would compute.\<close>

definition entryCurrent ::
  "'r env \<Rightarrow> real \<Rightarrow> cache \<Rightarrow> string list \<Rightarrow> real option \<Rightarrow> real option \<Rightarrow> real option
     \<Rightarrow> real option \<Rightarrow> bool" where
  "entryCurrent E now c tleArr timestamp observerLat observerLng observerHeight =
     (case c (cacheKey E tleArr timestamp observerLat observerLng observerHeight) of
        None \<Rightarrow> True
      | Some cached \<Rightarrow>
          computeInfo E tleArr (orDefault timestamp now) observerLat observerLng observerHeight
            = Inr cached)"

section \<open>getLatLon, getLookAngles, getGroundTrack\<close>

record latLng =
  lat_ll :: real
  lng_ll :: real

record looks =
  elevation_la :: real
  azimuth_la :: real
  range_la :: real

definition getLatLon ::
  "'r env \<Rightarrow> real \<Rightarrow> cache \<Rightarrow> tle_input \<Rightarrow> real option \<Rightarrow> (error + latLng) \<times> cache" where
  "getLatLon E now c tle timestamp =
     (case parseTLE tle of
        Inl e \<Rightarrow> (Inl e, c)
      | Inr tleObj \<Rightarrow>
          (case isValidTLE (TParsed tleObj) of
             Inl e \<Rightarrow> (Inl e, c)
           | Inr valid \<Rightarrow>
               if \<not> valid then (Inl (Error ''TLE could not be parsed''), c)
               else
                 (case getSatelliteInfo E now c (TArray (arr tleObj)) timestamp None None None of
                    (Inl e, c') \<Rightarrow> (Inl e, c')
                  | (Inr satInfo, c') \<Rightarrow>
                      (Inr \<lparr>lat_ll = lat satInfo, lng_ll = lng satInfo\<rparr>, c'))))"

definition getLatLonArr ::
  "'r env \<Rightarrow> real \<Rightarrow> cache \<Rightarrow> tle_input \<Rightarrow> real option \<Rightarrow> (error + real list) \<times> cache" where
  "getLatLonArr E now c tle timestamp =
     (case getLatLon E now c tle timestamp of
        (Inl e, c') \<Rightarrow> (Inl e, c')
      | (Inr ll, c') \<Rightarrow> (Inr [lat_ll ll, lng_ll ll], c'))"

text \<open>\<open>getLookAngles(tle, timestamp, lat, lng, height)\<close>: the call it makes is
  \<open>this.getSatelliteInfo(tle, timestamp)\<close>, with the three observer arguments omitted.\<close>

definition getLookAngles ::
  "'r env \<Rightarrow> real \<Rightarrow> cache \<Rightarrow> tle_input \<Rightarrow> real option \<Rightarrow> real option \<Rightarrow> real option
     \<Rightarrow> real option \<Rightarrow> (error + looks) \<times> cache" where
  "getLookAngles E now c tle timestamp lat0 lng0 height0 =
     (case getSatelliteInfo E now c tle timestamp None None None of
        (Inl e, c') \<Rightarrow> (Inl e, c')
      | (Inr satInfo, c') \<Rightarrow>
          (Inr \<lparr>elevation_la = elevation satInfo, azimuth_la = azimuth satInfo,
                 range_la = range' satInfo\<rparr>, c'))"

text \<open>The look angles of an observation, as the specification names them.\<close>

definition spec_lookAngles :: "observation \<Rightarrow> looks" where
  "spec_lookAngles ob =
     \<lparr>elevation_la = elevation ob, azimuth_la = azimuth ob, range_la = range' ob\<rparr>"

text \<open>
  \<open>getGroundTrack(tle, stepMS)\<close>, run when \<open>Date.now()\<close> is \<open>now\<close>. As the file stands, the
  declarations of this function are joined by commas (\<open>var timeOffset = ..., const now\<close>),
  which no engine parses; they are read here as the separate declarations they are meant
  to be. The first statement of the loop body calls the bare identifier \<open>getLatLonArr\<close>
  (not \<open>this.getLatLonArr\<close>). Neither the function, nor the factory function around the
  module (which binds \<open>satellitejs\<close>, \<open>satellite\<close>, \<open>tleLines\<close> and \<open>tle\<close>), nor the engine
  binds that name, so the first iteration raises \<open>ReferenceError\<close> before anything is
  pushed; the statement after it, \<open>curMarkerTime += stepMSCopy\<close>, assigns to a \<open>const\<close>.
  The loop therefore never completes an iteration: it is left by the exception when its
  condition holds, and is skipped otherwise.
\<close>

definition getGroundTrack :: "real \<Rightarrow> tle_input \<Rightarrow> real option \<Rightarrow> error + real list list" where
  "getGroundTrack now tle stepMS =
     (let defaultStepMS = 1000 * 60 * 1;
          stepMSCopy = orDefault stepMS defaultStepMS;
          timeOffset = 1000 * 60 * 60 * 3;
          startTime = now - timeOffset;
          curMarkerTime = startTime;
          endTime = now + timeOffset;
          latLngs = []
      in if curMarkerTime < endTime
         then Inl (ReferenceError ''getLatLonArr is not defined'')
         else Inr latLngs)"

text \<open>The sampling instants the specification describes: from \<open>now - 3h\<close>, every
  \<open>stepMs\<close> milliseconds, while before \<open>now + 3h\<close>; \<open>n\<close> bounds the number of steps.\<close>

fun spec_sampleTimes :: "nat \<Rightarrow> real \<Rightarrow> real \<Rightarrow> real \<Rightarrow> real list" where
  "spec_sampleTimes 0 cur endTime stepMs = []"
| "spec_sampleTimes (Suc n) cur endTime stepMs =
     (if cur < endTime then cur # spec_sampleTimes n (cur + stepMs) endTime stepMs else [])"

section \<open>A stand-in for satellite.js\<close>

text \<open>
  \<open>demoEnv\<close> is used only to run the code at concrete inputs. Its satellite record is the
  pair of lines; the satellite is reported at longitude 2 and latitude 1 with the
  propagation time (in ms) as its height, so that the time of a computation shows in its
  result; the range to the satellite is reported as the height of the observer, so that
  the observer shows in the result. Numbers render as the decimal digits of their integer
  part.
\<close>

definition demoEnv :: "(string option \<times> string option) env" where
  "demoEnv =
     \<lparr>twoline2satrec = (\<lambda>l0 l1. (l0, l1)),
      propagate = (\<lambda>r t. \<lparr>position = \<lparr>vec_x = t, vec_y = 2, vec_z = 1\<rparr>,
                            velocity = \<lparr>vec_x = 0, vec_y = 0, vec_z = 0\<rparr>\<rparr>),
      satError = (\<lambda>r t. False),
      gstimeFromDate = (\<lambda>t. 0),
      eciToEcf = (\<lambda>v g. v),
      geodeticToEcf = (\<lambda>g. \<lparr>vec_x = 0, vec_y = 0, vec_z = gd_height g\<rparr>),
      eciToGeodetic = (\<lambda>v g. \<lparr>gd_longitude = vec_y v, gd_latitude = vec_z v,
                                  gd_height = vec_x v\<rparr>),
      ecfToLookAngles = (\<lambda>ob pos. \<lparr>la_azimuth = 0, la_elevation = 0,
                                      la_rangeSat = gd_height ob\<rparr>),
      dopplerFactor = (\<lambda>a b v. 1),
      degreesLong = (\<lambda>r. r),
      degreesLat = (\<lambda>r. r),
      numToString = (\<lambda>r. showNat (nat \<lfloor>r\<rfloor>))\<rparr>"

section \<open>Properties\<close>

subsection \<open>The checksum and the parse of a single character\<close>

lemma contribution_digit: "isDigit c \<Longrightarrow> contribution c = int (digitVal c)"
  by (simp add: contribution_def)

lemma checksumStep_Sum:
  "checksumStep (Sum (Some a)) v = Sum (Some (a + contribution v))"
  by (simp add: checksumStep_def parseIntChar_def contribution_def)

lemma checksumStep_FirstChar:
  "isDigit c \<Longrightarrow> checksumStep (FirstChar c) v = Sum (Some (int (digitVal c) + contribution v))"
  by (simp add: checksumStep_def parseIntChar_def contribution_def)

lemma foldl_checksumStep_Sum:
  "foldl checksumStep (Sum (Some a)) cs = Sum (Some (a + sum_list (map contribution cs)))"
  by (induction cs arbitrary: a) (simp_all add: checksumStep_Sum add.assoc)

lemma foldl_checksumStep_FirstChar:
  "isDigit c \<Longrightarrow>
   toNumberAccum (foldl checksumStep (FirstChar c) cs)
     = Some (int (digitVal c) + sum_list (map contribution cs))"
  by (cases cs) (simp_all add: checksumStep_FirstChar foldl_checksumStep_Sum add.assoc)

lemma tleLineChecksum_digit_first:
  assumes "2 \<le> length l" and "isDigit (hd l)"
  shows "tleLineChecksum l = Inr (Some (spec_checksum l))"
proof -
  from assms(1) obtain c cs where l: "butlast l = c # cs" and c: "c = hd l"
    by (cases l; cases "tl l") auto
  with assms(2) show ?thesis
    by (simp add: tleLineChecksum_def spec_checksum_def foldl_checksumStep_FirstChar
        contribution_digit)
qed

lemma tleLineChecksum_returns:
  "2 \<le> length l \<Longrightarrow> \<exists>k. tleLineChecksum l = Inr k"
  by (cases l; cases "tl l") (auto simp: tleLineChecksum_def)

lemma double_range: "(10::real) \<le> 2 ^ 1024 - 2 ^ 970"
  by simp

lemma digitVal_le: "isDigit c \<Longrightarrow> digitVal c \<le> 9"
  by (auto simp: isDigit_def digitVal_def Let_def)

lemma toDouble_digit: "isDigit c \<Longrightarrow> toDouble (real (digitVal c)) = Num (real (digitVal c))"
  using double_range digitVal_le[of c] by (simp add: toDouble_def)

lemma parseFloat_char:
  "parseFloat [c] = (if isDigit c then Num (real (digitVal c)) else NaN)"
proof (cases "isDigit c")
  case True
  then have "\<not> isWhiteSpace c" "c \<noteq> CHR ''-''" "c \<noteq> CHR ''+''" "c \<noteq> CHR ''.''"
    by (auto simp: isDigit_def isWhiteSpace_def Let_def)
  with True show ?thesis
    by (simp add: parseFloat_def parseExponent_def digitsVal_def toDouble_digit)
next
  case False
  then show ?thesis
    by (auto simp: parseFloat_def Let_def)
qed

lemma digit_char_eq:
  "isDigit a \<Longrightarrow> isDigit b \<Longrightarrow> digitVal a = digitVal b \<Longrightarrow> a = b"
proof -
  assume "isDigit a" "isDigit b" "digitVal a = digitVal b"
  then have "(of_char a :: nat) = of_char b"
    unfolding isDigit_def digitVal_def Let_def by linarith
  then show "a = b" by (simp only: of_char_eq_iff)
qed

lemma isDigit_showNat: "n < 10 \<Longrightarrow> showNat n = [c] \<longleftrightarrow> (isDigit c \<and> digitVal c = n)"
proof -
  assume n: "n < 10"
  have d: "isDigit (char_of (48 + n))" "digitVal (char_of (48 + n)) = n"
    using n by (simp_all add: isDigit_def digitVal_def Let_def)
  have s: "showNat n = [char_of (48 + n)]" using n by (subst showNat.simps) simp
  show ?thesis using d digit_char_eq[of c "char_of (48 + n)"] s by auto
qed

lemma getters_used:
  "createTLEGetters ''getLineNumber1'' = Some (getter ''line1'' \<lparr>start = 0, length' = 1\<rparr>)"
  "createTLEGetters ''getLineNumber2'' = Some (getter ''line2'' \<lparr>start = 0, length' = 1\<rparr>)"
  "createTLEGetters ''getChecksum1'' = Some (getter ''line1'' \<lparr>start = 68, length' = 1\<rparr>)"
  "createTLEGetters ''getChecksum2'' = Some (getter ''line2'' \<lparr>start = 68, length' = 1\<rparr>)"
  by (simp_all add: createTLEGetters_def tleLines_def toCamelCase_def str_split_def
      toUpperCase_def substr_def char_of_def bit_Suc_0_iff)

lemma callGetter_used:
  "callGetter ''getLineNumber1'' x = getter ''line1'' \<lparr>start = 0, length' = 1\<rparr> x"
  "callGetter ''getLineNumber2'' x = getter ''line2'' \<lparr>start = 0, length' = 1\<rparr> x"
  "callGetter ''getChecksum1'' x = getter ''line1'' \<lparr>start = 68, length' = 1\<rparr> x"
  "callGetter ''getChecksum2'' x = getter ''line2'' \<lparr>start = 68, length' = 1\<rparr> x"
  by (simp_all add: callGetter_def getters_used)

lemma showNat_small: "showNat (Suc 0) = ''1''" "showNat 2 = ''2''"
  by (simp_all add: showNat.simps char_of_def bit_Suc_0_iff)

lemma coerce_char:
  "fieldOutput [c] = (if isDigit c then FNum (real (digitVal c)) else FStr [c])"
  by (simp add: fieldOutput_def parseFloat_char)

lemma substr_first: "l \<noteq> [] \<Longrightarrow> substr l 0 (Suc 0) = [hd l]"
  by (cases l) (simp_all add: substr_def)

lemma substr_last: "length l = 69 \<Longrightarrow> substr l 68 (Suc 0) = [last l]"
proof -
  assume len: "length l = 69"
  then have "l \<noteq> []" by auto
  then have "l = butlast l @ [last l]" by simp
  moreover have "length (butlast l) = 68" using len by simp
  ultimately have "drop 68 l = [last l]"
    using append_eq_conv_conj[of "butlast l" "[last l]" l] by simp
  then show ?thesis by (simp add: substr_def)
qed

lemma strictEq_digit:
  "strictEq (if isDigit c then FNum (real (digitVal c)) else FStr [c]) (Some k)
     \<longleftrightarrow> isDigit c \<and> int (digitVal c) = k"
  by auto

lemma lineNumber_ok:
  assumes "l \<noteq> []" and "n < 10"
  shows "(isDigit (hd l) \<and> int (digitVal (hd l)) = int n) \<longleftrightarrow> take 1 l = showNat n"
proof -
  from assms(1) have "take 1 l = [hd l]" by (cases l) simp_all
  then show ?thesis using isDigit_showNat[OF assms(2), of "hd l"] by auto
qed

text \<open>One line of 69 characters, as the callback of \<open>isValidTLE\<close> checks it.\<close>

lemma line_check:
  assumes len: "length l = 69" and n: "n < 10"
  shows "\<exists>k. tleLineChecksum l = Inr k \<and>
           ((strictEq (if isDigit (hd l) then FNum (real (digitVal (hd l))) else FStr [hd l])
               (Some (int n)) \<and>
             strictEq (if isDigit (last l) then FNum (real (digitVal (last l))) else FStr [last l]) k)
            \<longleftrightarrow> spec_lineValid n l)"
proof (cases "isDigit (hd l)")
  case True
  have ne: "l \<noteq> []" using len by auto
  have k: "tleLineChecksum l = Inr (Some (spec_checksum l))"
    using tleLineChecksum_digit_first[of l] len True by simp
  have "(strictEq (if isDigit (hd l) then FNum (real (digitVal (hd l))) else FStr [hd l])
               (Some (int n)) \<and>
         strictEq (if isDigit (last l) then FNum (real (digitVal (last l))) else FStr [last l])
               (Some (spec_checksum l)))
        \<longleftrightarrow> spec_lineValid n l"
    unfolding strictEq_digit spec_lineValid_def
    using lineNumber_ok[OF ne n] ne by blast
  with k show ?thesis by blast
next
  case False
  have ne: "l \<noteq> []" using len by auto
  obtain k where k: "tleLineChecksum l = Inr k"
    using tleLineChecksum_returns[of l] len by auto
  have "\<not> spec_lineValid n l"
    using lineNumber_ok[OF ne n] False by (simp add: spec_lineValid_def)
  moreover have "\<not> strictEq (if isDigit (hd l) then FNum (real (digitVal (hd l))) else FStr [hd l])
               (Some (int n))"
    using False by simp
  ultimately show ?thesis using k by blast
qed

subsection \<open>isValidTLE on lines of 69 characters\<close>

lemma validateLines_False: "validateLines p i ls False = Inr False"
  by (induction ls arbitrary: i) simp_all

lemma validateLines_step:
  assumes "callGetter (''getLineNumber'' @ showNat (Suc i)) (TParsed p) = Inr a"
    and "tleLineChecksum (arr p ! i) = Inr k"
    and "callGetter (''getChecksum'' @ showNat (Suc i)) (TParsed p) = Inr b"
  shows "validateLines p i (line # rest) True
           = validateLines p (Suc i) rest (strictEq a (Some (int (Suc i))) \<and> strictEq b k)"
  using assms
  by (cases "strictEq a (Some (1 + int i))"; cases "strictEq b k") (simp_all del: strictEq.simps)

lemma getter_parsed:
  "arr p = [l1, l2] \<Longrightarrow>
   getter ''line1'' spec (TParsed p) = Inr (fieldOutput (substr l1 (start spec) (length' spec)))"
  "arr p = [l1, l2] \<Longrightarrow>
   getter ''line2'' spec (TParsed p) = Inr (fieldOutput (substr l2 (start spec) (length' spec)))"
  by (simp_all add: getter_def parseTLE_def handleVariants_def Let_def)

lemma validateLines_two:
  assumes a: "arr p = [l1, l2]" and l1: "length l1 = 69" and l2: "length l2 = 69"
  shows "validateLines p 0 [l1, l2] True = Inr (spec_lineValid 1 l1 \<and> spec_lineValid 2 l2)"
proof -
  define a1 where "a1 = (if isDigit (hd l1) then FNum (real (digitVal (hd l1))) else FStr [hd l1])"
  define b1 where "b1 = (if isDigit (last l1) then FNum (real (digitVal (last l1))) else FStr [last l1])"
  define a2 where "a2 = (if isDigit (hd l2) then FNum (real (digitVal (hd l2))) else FStr [hd l2])"
  define b2 where "b2 = (if isDigit (last l2) then FNum (real (digitVal (last l2))) else FStr [last l2])"
  have ne: "l1 \<noteq> []" "l2 \<noteq> []" using l1 l2 by auto
  obtain k1 where k1: "tleLineChecksum (arr p ! 0) = Inr k1"
    and v1: "(strictEq a1 (Some (int (Suc 0))) \<and> strictEq b1 k1) = spec_lineValid (Suc 0) l1"
    using line_check[OF l1, of "Suc 0"] a unfolding a1_def b1_def by auto
  obtain k2 where k2: "tleLineChecksum (arr p ! Suc 0) = Inr k2"
    and v2: "(strictEq a2 (Some (int (Suc (Suc 0)))) \<and> strictEq b2 k2) = spec_lineValid (Suc (Suc 0)) l2"
    using line_check[OF l2, of "Suc (Suc 0)"] a unfolding a2_def b2_def by auto
  have g1: "callGetter (''getLineNumber'' @ showNat (Suc 0)) (TParsed p) = Inr a1"
    unfolding a1_def using a ne
    by (simp add: showNat_small callGetter_used getter_parsed substr_first coerce_char)
  have c1: "callGetter (''getChecksum'' @ showNat (Suc 0)) (TParsed p) = Inr b1"
    unfolding b1_def using a l1
    by (simp add: showNat_small callGetter_used getter_parsed substr_last coerce_char)
  have g2: "callGetter (''getLineNumber'' @ showNat (Suc (Suc 0))) (TParsed p) = Inr a2"
    unfolding a2_def using a ne showNat_small(2)
    by (simp add: numeral_2_eq_2 callGetter_used getter_parsed substr_first coerce_char)
  have c2: "callGetter (''getChecksum'' @ showNat (Suc (Suc 0))) (TParsed p) = Inr b2"
    unfolding b2_def using a l2 showNat_small(2)
    by (simp add: numeral_2_eq_2 callGetter_used getter_parsed substr_last coerce_char)
  have s1: "validateLines p 0 [l1, l2] True = validateLines p (Suc 0) [l2] (spec_lineValid (Suc 0) l1)"
    using validateLines_step[OF g1 k1 c1, of l1 "[l2]"] by (simp only: v1)
  have s2: "validateLines p (Suc 0) [l2] True
              = validateLines p (Suc (Suc 0)) [] (spec_lineValid (Suc (Suc 0)) l2)"
    using validateLines_step[OF g2 k2 c2, of l2 "[]"] by (simp only: v2)
  have n: "spec_lineValid (Suc 0) l1 = spec_lineValid 1 l1"
          "spec_lineValid (Suc (Suc 0)) l2 = spec_lineValid 2 l2"
    by (simp_all add: numeral_2_eq_2)
  show ?thesis
  proof (cases "spec_lineValid (Suc 0) l1")
    case False
    then show ?thesis using s1 n by (simp only: validateLines_False) simp
  next
    case True
    then show ?thesis using s1 s2 n by (simp only: validateLines.simps) simp
  qed
qed

lemma isValidTLE_lines69_iff:
  assumes "parseTLE x = Inr p" and "list_all (\<lambda>l. length l = 69) (arr p)"
  shows "isValidTLE x =
           Inr (length (arr p) = 2 \<and> spec_lineValid 1 (arr p ! 0) \<and> spec_lineValid 2 (arr p ! 1))"
proof (cases "length (arr p) = 2")
  case False
  then show ?thesis using assms(1) by (simp add: isValidTLE_def)
next
  case True
  then obtain l1 l2 where a: "arr p = [l1, l2]"
    by (cases "arr p"; cases "tl (arr p)") auto
  with assms(2) have "length l1 = 69" "length l2 = 69" by simp_all
  from validateLines_two[OF a this] a assms(1) show ?thesis
    by (simp add: isValidTLE_def)
qed

lemma spec_lineValid_replace_last:
  assumes "spec_lineValid n l" and "c \<noteq> last l"
  shows "\<not> spec_lineValid n (butlast l @ [c])"
proof
  assume r: "spec_lineValid n (butlast l @ [c])"
  have "spec_checksum (butlast l @ [c]) = spec_checksum l"
    by (simp add: spec_checksum_def)
  with r assms(1) have "isDigit c" "isDigit (last l)" "digitVal c = digitVal (last l)"
    by (simp_all add: spec_lineValid_def)
  then have "c = last l" by (rule digit_char_eq)
  with assms(2) show False by simp
qed

text \<open>
  Claim C1. The claim: for every line that keeps at least one character once the last is
  dropped, \<open>tleLineChecksum\<close> returns the sum, modulo 10, in which a digit counts its
  value, \<open>-\<close> counts 1 and every other character 0. The code does so only when the
  line starts with a digit (lemma \<open>tleLineChecksum_digit_first\<close>): \<open>reduce\<close> has no initial
  value, so the first character is the accumulator, and \<open>parseInt\<close> of a first character
  that is not a digit is \<open>NaN\<close>, which every later sum keeps. On the line \<open>-123\<close> the
  code returns \<open>NaN\<close>, where the claimed checksum is \<open>(1 + 1 + 2) mod 10 = 4\<close>.
\<close>

theorem tleLineChecksum_leading_nondigit:
  "tleLineChecksum ''-123'' = Inr None \<and> spec_checksum ''-123'' = 4"
  by (simp add: tleLineChecksum_def checksumStep_def parseIntChar_def isDigit_def digitVal_def
      spec_checksum_def contribution_def)

text \<open>
  Claim C2, amended. For every input the parser accepts whose parsed lines all have
  exactly 69 characters: \<open>isValidTLE\<close> returns true if and only if there are exactly two
  lines, line 1 starts with \<open>1\<close> and line 2 with \<open>2\<close>, and the last character of each line
  is a digit equal to the checksum of that line as the specification computes it; and
  when it returns true, replacing the last character of either line by any other
  character makes it return false.
\<close>

theorem isValidTLE_lines69:
  assumes "parseTLE x = Inr p" and "list_all (\<lambda>l. length l = 69) (arr p)"
  shows "isValidTLE x =
           Inr (length (arr p) = 2 \<and> spec_lineValid 1 (arr p ! 0) \<and> spec_lineValid 2 (arr p ! 1))
         \<and> (isValidTLE x = Inr True \<longrightarrow>
              (\<forall>c. c \<noteq> last (arr p ! 0) \<longrightarrow>
                 isValidTLE (TParsed (p\<lparr>arr := [butlast (arr p ! 0) @ [c], arr p ! 1]\<rparr>)) = Inr False)
            \<and> (\<forall>c. c \<noteq> last (arr p ! 1) \<longrightarrow>
                 isValidTLE (TParsed (p\<lparr>arr := [arr p ! 0, butlast (arr p ! 1) @ [c]]\<rparr>)) = Inr False))"
proof (intro conjI impI allI)
  show iff: "isValidTLE x =
      Inr (length (arr p) = 2 \<and> spec_lineValid 1 (arr p ! 0) \<and> spec_lineValid 2 (arr p ! 1))"
    using assms by (rule isValidTLE_lines69_iff)
  {
    assume "isValidTLE x = Inr True"
    with iff have two: "length (arr p) = 2" and v1: "spec_lineValid 1 (arr p ! 0)"
      and v2: "spec_lineValid 2 (arr p ! 1)" by simp_all
    from two obtain l1 l2 where a: "arr p = [l1, l2]"
      by (cases "arr p"; cases "tl (arr p)") auto
    with assms(2) have len: "length l1 = 69" "length l2 = 69" by simp_all
    {
      fix c assume c: "c \<noteq> last (arr p ! 0)"
      let ?p = "p\<lparr>arr := [butlast (arr p ! 0) @ [c], arr p ! 1]\<rparr>"
      have "list_all (\<lambda>l. length l = 69) (arr ?p)" using a len by simp
      from isValidTLE_lines69_iff[of "TParsed ?p" ?p, OF _ this]
      show "isValidTLE (TParsed ?p) = Inr False"
        using spec_lineValid_replace_last[OF v1 c] by (simp add: parseTLE_def handleVariants_def)
    }
    {
      fix c assume c: "c \<noteq> last (arr p ! 1)"
      let ?p = "p\<lparr>arr := [arr p ! 0, butlast (arr p ! 1) @ [c]]\<rparr>"
      have "list_all (\<lambda>l. length l = 69) (arr ?p)" using a len by simp
      from isValidTLE_lines69_iff[of "TParsed ?p" ?p, OF _ this]
      show "isValidTLE (TParsed ?p) = Inr False"
        using spec_lineValid_replace_last[OF v2 c] by (simp add: parseTLE_def handleVariants_def)
    }
  }
qed

lemma spec_lineValid_iss:
  "spec_lineValid 1 ''1 25544U 98067A   21275.52719505  .00002182  00000-0  49422-4 0  9999''"
  "spec_lineValid 2 ''2 25544  51.6442  40.7625 0003438 154.0455 306.1756 15.48783287303096''"
  by (simp_all add: spec_lineValid_def showNat.simps spec_checksum_def contribution_def isDigit_def
      digitVal_def char_of_def bit_Suc_0_iff)

lemma parseTLE_iss:
  "parseTLE (TArray [''1 25544U 98067A   21275.52719505  .00002182  00000-0  49422-4 0  9999'',
                     ''2 25544  51.6442  40.7625 0003438 154.0455 306.1756 15.48783287303096''])
   = Inr \<lparr>name = ''Unknown'',
          arr = [''1 25544U 98067A   21275.52719505  .00002182  00000-0  49422-4 0  9999'',
                 ''2 25544  51.6442  40.7625 0003438 154.0455 306.1756 15.48783287303096'']\<rparr>"
  by (simp add: parseTLE_def handleVariants_def trim_def isWhiteSpace_def)

text \<open>The theorem at a record of two 69-character lines with correct checksums, and at
  the same record with the last digit of line 1 changed from 9 to 0.\<close>

theorem isValidTLE_lines69_witness:
  "isValidTLE (TArray [''1 25544U 98067A   21275.52719505  .00002182  00000-0  49422-4 0  9999'',
                       ''2 25544  51.6442  40.7625 0003438 154.0455 306.1756 15.48783287303096''])
     = Inr True
   \<and> isValidTLE (TParsed \<lparr>name = ''Unknown'',
         arr = [''1 25544U 98067A   21275.52719505  .00002182  00000-0  49422-4 0  9990'',
                ''2 25544  51.6442  40.7625 0003438 154.0455 306.1756 15.48783287303096'']\<rparr>)
     = Inr False"
  using isValidTLE_lines69[OF parseTLE_iss] spec_lineValid_iss
  by simp

lemma cx_checksum:
  "tleLineChecksum ''19                                                                  55'' = Inr (Some 5)"
  "tleLineChecksum ''19                                                                  57'' = Inr (Some 5)"
  "tleLineChecksum ''28                                                                  55'' = Inr (Some 5)"
  by (simp_all add: tleLineChecksum_def checksumStep_def parseIntChar_def isDigit_def digitVal_def)

lemma isValidTLE_two_lines:
  assumes "parseTLE x = Inr p" and "arr p = [l1, l2]"
    and "getter ''line1'' \<lparr>start = 0, length' = 1\<rparr> (TParsed p) = Inr a1"
    and "tleLineChecksum l1 = Inr k1"
    and "getter ''line1'' \<lparr>start = 68, length' = 1\<rparr> (TParsed p) = Inr b1"
    and "getter ''line2'' \<lparr>start = 0, length' = 1\<rparr> (TParsed p) = Inr a2"
    and "tleLineChecksum l2 = Inr k2"
    and "getter ''line2'' \<lparr>start = 68, length' = 1\<rparr> (TParsed p) = Inr b2"
  shows "isValidTLE x = Inr ((strictEq a1 (Some 1) \<and> strictEq b1 k1)
                              \<and> (strictEq a2 (Some 2) \<and> strictEq b2 k2))"
proof -
  have g1: "callGetter (''getLineNumber'' @ showNat (Suc 0)) (TParsed p) = Inr a1"
    and c1: "callGetter (''getChecksum'' @ showNat (Suc 0)) (TParsed p) = Inr b1"
    using assms(3,5) by (simp_all add: showNat_small callGetter_used)
  have g2: "callGetter (''getLineNumber'' @ showNat (Suc (Suc 0))) (TParsed p) = Inr a2"
    and c2: "callGetter (''getChecksum'' @ showNat (Suc (Suc 0))) (TParsed p) = Inr b2"
    using assms(6,8) showNat_small(2) by (simp_all add: numeral_2_eq_2 callGetter_used)
  have k1: "tleLineChecksum (arr p ! 0) = Inr k1" and k2: "tleLineChecksum (arr p ! Suc 0) = Inr k2"
    using assms(2,4,7) by simp_all
  have e: "int (Suc 0) = 1" "int (Suc (Suc 0)) = 2" by simp_all
  have s1: "validateLines p 0 [l1, l2] True
              = validateLines p (Suc 0) [l2] (strictEq a1 (Some 1) \<and> strictEq b1 k1)"
    using validateLines_step[OF g1 k1 c1, of l1 "[l2]"] unfolding e .
  have s2: "validateLines p (Suc 0) [l2] True
              = validateLines p (Suc (Suc 0)) [] (strictEq a2 (Some 2) \<and> strictEq b2 k2)"
    using validateLines_step[OF g2 k2 c2, of l2 "[]"] unfolding e .
  have v: "isValidTLE x = validateLines p 0 [l1, l2] True"
    using assms(1,2) by (simp add: isValidTLE_def)
  show ?thesis
  proof (cases "strictEq a1 (Some 1) \<and> strictEq b1 k1")
    case False
    then have f: "(strictEq a1 (Some 1) \<and> strictEq b1 k1) = False" by simp
    have "isValidTLE x = Inr False"
      unfolding v s1 f by (rule validateLines_False)
    then show ?thesis using False by auto
  next
    case True
    then have t: "(strictEq a1 (Some 1) \<and> strictEq b1 k1) = True" by simp
    have "isValidTLE x = Inr (strictEq a2 (Some 2) \<and> strictEq b2 k2)"
      unfolding v s1 t s2 by (simp only: validateLines.simps(1))
    then show ?thesis using True by simp
  qed
qed

lemma getter_eval:
  "arr p = [l1, l2] \<Longrightarrow> length l1 = 70 \<Longrightarrow>
   getter ''line1'' \<lparr>start = 0, length' = 1\<rparr> (TParsed p) = Inr (fieldOutput [l1 ! 0])"
  "arr p = [l1, l2] \<Longrightarrow> length l2 = 70 \<Longrightarrow>
   getter ''line2'' \<lparr>start = 0, length' = 1\<rparr> (TParsed p) = Inr (fieldOutput [l2 ! 0])"
  "arr p = [l1, l2] \<Longrightarrow> length l1 = 70 \<Longrightarrow>
   getter ''line1'' \<lparr>start = 68, length' = 1\<rparr> (TParsed p) = Inr (fieldOutput [l1 ! 68])"
  "arr p = [l1, l2] \<Longrightarrow> length l2 = 70 \<Longrightarrow>
   getter ''line2'' \<lparr>start = 68, length' = 1\<rparr> (TParsed p) = Inr (fieldOutput [l2 ! 68])"
  by (simp_all add: getter_parsed substr_def take_Suc_conv_app_nth hd_conv_nth hd_drop_conv_nth take_Suc)

text \<open>
  Claim C2 as stated fails on lines longer than 69 characters, which the parser accepts:
  the getter reads the checksum at column 68, while \<open>tleLineChecksum\<close> drops the last
  character, here at column 69. Both records below are valid for \<open>isValidTLE\<close>; they differ
  in the trailing digit of line 1 only, and in the second one that digit, 7, is not the
  checksum of the line, 5.
\<close>

theorem isValidTLE_trailing_digit_counterexample:
  "isValidTLE (TArray [''19                                                                  55'',
                       ''28                                                                  55''])
     = Inr True
   \<and> isValidTLE (TArray [''19                                                                  57'',
                          ''28                                                                  55''])
     = Inr True
   \<and> last ''19                                                                  57'' = CHR ''7''
   \<and> tleLineChecksum ''19                                                                  57''
       = Inr (Some 5)"
proof -
  let ?a = "''19                                                                  55''"
  let ?a' = "''19                                                                  57''"
  let ?b = "''28                                                                  55''"
  have p: "parseTLE (TArray [?a, ?b]) = Inr \<lparr>name = ''Unknown'', arr = [?a, ?b]\<rparr>"
          "parseTLE (TArray [?a', ?b]) = Inr \<lparr>name = ''Unknown'', arr = [?a', ?b]\<rparr>"
    by (simp_all add: parseTLE_def handleVariants_def trim_def isWhiteSpace_def)
  have d: "fieldOutput ''1'' = FNum 1" "fieldOutput ''2'' = FNum 2" "fieldOutput ''5'' = FNum 5"
    by (simp_all add: coerce_char isDigit_def digitVal_def)
  have a: "arr \<lparr>name = ''Unknown'', arr = [?a, ?b]\<rparr> = [?a, ?b]"
          "arr \<lparr>name = ''Unknown'', arr = [?a', ?b]\<rparr> = [?a', ?b]"
    by simp_all
  have l: "length ?a = 70" "length ?a' = 70" "length ?b = 70" by simp_all
  have 1: "isValidTLE (TArray [?a, ?b]) = Inr True"
    using isValidTLE_two_lines[OF p(1) a(1) getter_eval(1)[OF a(1) l(1)] cx_checksum(1)
        getter_eval(3)[OF a(1) l(1)] getter_eval(2)[OF a(1) l(3)] cx_checksum(3)
        getter_eval(4)[OF a(1) l(3)]] d
    by simp
  have 2: "isValidTLE (TArray [?a', ?b]) = Inr True"
    using isValidTLE_two_lines[OF p(2) a(2) getter_eval(1)[OF a(2) l(2)] cx_checksum(2)
        getter_eval(3)[OF a(2) l(2)] getter_eval(2)[OF a(2) l(3)] cx_checksum(3)
        getter_eval(4)[OF a(2) l(3)]] d
    by simp
  show ?thesis using 1 2 cx_checksum(2) by simp
qed

subsection \<open>parseTLE and the field getters\<close>

lemma trim_idem: "trim (trim s) = trim s"
proof -
  define t where "t = dropWhile isWhiteSpace s"
  define r where "r = dropWhile isWhiteSpace (rev t)"
  have r: "dropWhile isWhiteSpace r = r" by (simp add: r_def)
  have "dropWhile isWhiteSpace (rev r) = rev r"
  proof (cases "r = []")
    case True then show ?thesis by simp
  next
    case False
    have t: "t = [] \<or> \<not> isWhiteSpace (hd t)"
      using hd_dropWhile[of isWhiteSpace s] by (auto simp: t_def)
    have "rev t = takeWhile isWhiteSpace (rev t) @ r" by (simp add: r_def)
    then have "t = rev r @ rev (takeWhile isWhiteSpace (rev t))"
      by (metis rev_append rev_rev_ident)
    with False have "hd (rev r) = hd t" "t \<noteq> []"
      by (metis hd_append2 rev_is_Nil_conv, metis Nil_is_append_conv rev_is_Nil_conv False)
    with t show ?thesis by (simp add: dropWhile_eq_self_iff)
  qed
  then show ?thesis
    by (simp add: trim_def t_def[symmetric] r_def[symmetric] r)
qed

lemma substr_eq_columns:
  "s + n \<le> length l \<Longrightarrow> substr l s n = map (\<lambda>i. l ! i) [s ..< s + n]"
  by (rule nth_equalityI) (simp_all add: substr_def)

lemma parseTLE_TParsed: "parseTLE (TParsed p) = Inr p"
  by (simp add: parseTLE_def handleVariants_def)

text \<open>
  Claim C8. \<open>parseTLE\<close> is idempotent: whatever the parser returns for an input it
  accepts, parsing that result again returns it unchanged; and any object that carries
  an \<open>arr\<close> array is returned as it is.
\<close>

theorem parseTLE_idempotent:
  "(parseTLE x = Inr p \<longrightarrow> parseTLE (TParsed p) = parseTLE x) \<and> parseTLE (TParsed q) = Inr q"
  by (simp add: parseTLE_def handleVariants_def)

theorem parseTLE_idempotent_witness:
  "parseTLE (TString (''ISS'' @ [CHR 0x0A] @ '' 1 a  '' @ [CHR 0x0A] @ ''2 b''))
     = Inr \<lparr>name = ''ISS'', arr = [''1 a'', ''2 b'']\<rparr>
   \<and> parseTLE (TParsed \<lparr>name = ''ISS'', arr = [''1 a'', ''2 b'']\<rparr>)
     = parseTLE (TString (''ISS'' @ [CHR 0x0A] @ '' 1 a  '' @ [CHR 0x0A] @ ''2 b''))"
proof -
  have p: "parseTLE (TString (''ISS'' @ [CHR 0x0A] @ '' 1 a  '' @ [CHR 0x0A] @ ''2 b''))
     = Inr \<lparr>name = ''ISS'', arr = [''1 a'', ''2 b'']\<rparr>"
    by (simp add: parseTLE_def handleVariants_def str_split_def trim_def isWhiteSpace_def)
  from parseTLE_idempotent[of "TString (''ISS'' @ [CHR 0x0A] @ '' 1 a  '' @ [CHR 0x0A] @ ''2 b'')"
      "\<lparr>name = ''ISS'', arr = [''1 a'', ''2 b'']\<rparr>"] p
  show ?thesis by simp
qed

lemma createTLEGetters_table:
  "list_all (\<lambda>(tleLine, props).
      list_all (\<lambda>(prop, spec).
         createTLEGetters (toCamelCase (''get-'' @ prop) None) = Some (getter tleLine spec)) props)
     tleLines"
  by (simp add: createTLEGetters_def tleLines_def toCamelCase_def str_split_def
      toUpperCase_def substr_def char_of_def bit_Suc_0_iff)

lemma tleLines_keys: "(tleLine, props) \<in> set tleLines \<Longrightarrow> tleLine = ''line1'' \<or> tleLine = ''line2''"
  by (auto simp: tleLines_def)

text \<open>
  Claim C3. For every field \<open>prop\<close> of the schema, with its \<open>start\<close> and \<open>length\<close>, and
  every canonical record whose line for that field covers the columns
  \<open>start \<dots> start + length - 1\<close>: the getter named \<open>get\<close> + \<open>Prop\<close> returns the number that
  the characters of those columns, untrimmed, parse to when that is a finite number, and
  otherwise those characters themselves.
\<close>

theorem getter_extracts_field:
  assumes "(tleLine, props) \<in> set tleLines" and "(prop, spec) \<in> set props"
    and "length (arr p) = 2"
    and "line = arr p ! (if tleLine = ''line1'' then 0 else 1)"
    and "start spec + length' spec \<le> length line"
  shows "callGetter (toCamelCase (''get-'' @ prop) None) (TParsed p) = Inr (spec_fieldValue line spec)"
proof -
  have g: "createTLEGetters (toCamelCase (''get-'' @ prop) None) = Some (getter tleLine spec)"
    using createTLEGetters_table assms(1,2) by (auto simp: list_all_iff)
  have "substr line (start spec) (length' spec)
          = map (\<lambda>i. line ! i) [start spec ..< start spec + length' spec]"
    using assms(5) by (rule substr_eq_columns)
  then have "fieldOutput (substr line (start spec) (length' spec)) = spec_fieldValue line spec"
    by (simp add: fieldOutput_def spec_fieldValue_def Let_def)
  moreover have "getter tleLine spec (TParsed p)
                   = Inr (fieldOutput (substr line (start spec) (length' spec)))"
    using assms(3,4) by (simp add: getter_def parseTLE_def handleVariants_def Let_def)
  ultimately show ?thesis unfolding callGetter_def g by simp
qed


lemma iss_fields:
  "spec_fieldValue ''2 25544  51.6442  40.7625 0003438 154.0455 306.1756 15.48783287303096''
     \<lparr>start = 52, length' = 11\<rparr> = FNum 15.48783287"
  "spec_fieldValue ''1 25544U 98067A   21275.52719505  .00002182  00000-0  49422-4 0  9999''
     \<lparr>start = 7, length' = 1\<rparr> = FStr ''U''"
  by (simp_all add: spec_fieldValue_def upt_rec[of _ "numeral _"] parseFloat_def isWhiteSpace_def isDigit_def digitVal_def
      digitsVal_def parseExponent_def toDouble_def)

lemma toCamelCase_names:
  "toCamelCase (''get-'' @ ''meanMotion'') None = ''getMeanMotion''"
  "toCamelCase (''get-'' @ ''classification'') None = ''getClassification''"
  by (simp_all add: toCamelCase_def str_split_def toUpperCase_def substr_def char_of_def bit_Suc_0_iff)

text \<open>The theorem at two fields of a record of two 69-character lines: the mean motion
  of line 2 comes back as a number, the classification letter of line 1 as its
  character.\<close>

theorem getter_extracts_field_witness:
  "callGetter ''getMeanMotion''
     (TParsed \<lparr>name = ''Unknown'',
        arr = [''1 25544U 98067A   21275.52719505  .00002182  00000-0  49422-4 0  9999'',
               ''2 25544  51.6442  40.7625 0003438 154.0455 306.1756 15.48783287303096'']\<rparr>)
     = Inr (FNum 15.48783287)
   \<and> callGetter ''getClassification''
     (TParsed \<lparr>name = ''Unknown'',
        arr = [''1 25544U 98067A   21275.52719505  .00002182  00000-0  49422-4 0  9999'',
               ''2 25544  51.6442  40.7625 0003438 154.0455 306.1756 15.48783287303096'']\<rparr>)
     = Inr (FStr ''U'')"
proof -
  let ?l1 = "''1 25544U 98067A   21275.52719505  .00002182  00000-0  49422-4 0  9999''"
  let ?l2 = "''2 25544  51.6442  40.7625 0003438 154.0455 306.1756 15.48783287303096''"
  let ?p = "\<lparr>name = ''Unknown'', arr = [?l1, ?l2]\<rparr>"
  have m2: "(''line2'', snd (tleLines ! 1)) \<in> set tleLines"
    and f2: "(''meanMotion'', \<lparr>start = 52, length' = 11\<rparr>) \<in> set (snd (tleLines ! 1))"
    and m1: "(''line1'', snd (tleLines ! 0)) \<in> set tleLines"
    and f1: "(''classification'', \<lparr>start = 7, length' = 1\<rparr>) \<in> set (snd (tleLines ! 0))"
    by (simp_all add: tleLines_def)
  have a: "length (arr ?p) = 2" by simp
  have s2: "?l2 = arr ?p ! (if ''line2'' = ''line1'' then 0 else 1)"
    and s1: "?l1 = arr ?p ! (if ''line1'' = ''line1'' then 0 else 1)" by simp_all
  have c2: "start \<lparr>start = 52, length' = 11\<rparr> + length' \<lparr>start = 52, length' = 11\<rparr> \<le> length ?l2"
    and c1: "start \<lparr>start = 7, length' = 1\<rparr> + length' \<lparr>start = 7, length' = 1\<rparr> \<le> length ?l1"
    by simp_all
  show ?thesis
    using getter_extracts_field[OF m2 f2 a s2 c2] getter_extracts_field[OF m1 f1 a s1 c1]
    unfolding iss_fields toCamelCase_names
    by simp
qed

subsection \<open>The ground track\<close>

text \<open>The sampling that the specification describes: \<open>ceil((end - start) / stepMs)\<close>
  instants, 360 for the six-hour window and the default step.\<close>

lemma spec_sampleTimes_count:
  assumes "0 < stepMs" and "nat \<lceil>(endTime - cur) / stepMs\<rceil> \<le> n"
  shows "length (spec_sampleTimes n cur endTime stepMs) = nat \<lceil>(endTime - cur) / stepMs\<rceil>"
  using assms(2)
proof (induction n arbitrary: cur)
  case 0
  then show ?case by simp
next
  case (Suc n)
  show ?case
  proof (cases "cur < endTime")
    case False
    then have "(endTime - cur) / stepMs \<le> 0"
      using assms(1) by (simp add: divide_le_0_iff)
    then have "\<lceil>(endTime - cur) / stepMs\<rceil> \<le> 0" by (simp add: ceiling_le_iff)
    with False show ?thesis by simp
  next
    case True
    have e: "(endTime - (cur + stepMs)) / stepMs = (endTime - cur) / stepMs - 1"
      using assms(1) by (simp add: field_simps)
    have pos: "0 < (endTime - cur) / stepMs" using True assms(1) by simp
    then have c1: "1 \<le> \<lceil>(endTime - cur) / stepMs\<rceil>" by (simp add: less_ceiling_iff Suc_le_eq)
    have c: "\<lceil>(endTime - (cur + stepMs)) / stepMs\<rceil> = \<lceil>(endTime - cur) / stepMs\<rceil> - 1"
      unfolding e by simp
    have "nat \<lceil>(endTime - (cur + stepMs)) / stepMs\<rceil> \<le> n"
      using Suc.prems c c1 by linarith
    from Suc.IH[OF this]
    have l: "length (spec_sampleTimes n (cur + stepMs) endTime stepMs)
               = nat (\<lceil>(endTime - cur) / stepMs\<rceil> - 1)"
      by (simp only: c)
    have "Suc (nat (\<lceil>(endTime - cur) / stepMs\<rceil> - 1)) = nat \<lceil>(endTime - cur) / stepMs\<rceil>"
      using c1 by linarith
    with l True show ?thesis by simp
  qed
qed

lemma spec_sampleTimes_default:
  "length (spec_sampleTimes 360 (now - 10800000) (now + 10800000) 60000) = 360"
  using spec_sampleTimes_count[of 60000 "now + 10800000" "now - 10800000" 360] by simp

text \<open>
  Claim C6. The claim: for a valid record and a positive step, \<open>getGroundTrack\<close> returns
  the ordered \<open>[lat, lng]\<close> samples taken every \<open>stepMS\<close> milliseconds over the six hours
  around now, \<open>ceil(21600000 / stepMS)\<close> of them (360 by default). The code returns no
  list for any record, step or time: the window is never empty, so the loop body runs,
  and its call of the unbound \<open>getLatLonArr\<close> raises \<open>ReferenceError\<close>.
\<close>

theorem getGroundTrack_raises:
  "getGroundTrack now tle stepMS = Inl (ReferenceError ''getLatLonArr is not defined'')"
  by (simp add: getGroundTrack_def)

subsection \<open>Double arithmetic and dayOfYearToTimeStamp\<close>



lemma roundHalfEven_int: "roundHalfEven (real_of_int n) = n"
  by (simp add: roundHalfEven_def)

lemma log2_bounds:
  assumes "0 < x"
  shows "2 powr real_of_int \<lfloor>log 2 x\<rfloor> \<le> x" and "x < 2 powr real_of_int (\<lfloor>log 2 x\<rfloor> + 1)"
proof -
  have "real_of_int \<lfloor>log 2 x\<rfloor> \<le> log 2 x" by simp
  then have "2 powr real_of_int \<lfloor>log 2 x\<rfloor> \<le> 2 powr log 2 x" by (simp only: powr_le_cancel_iff) 
  then show "2 powr real_of_int \<lfloor>log 2 x\<rfloor> \<le> x" using assms by simp
  have "log 2 x < real_of_int (\<lfloor>log 2 x\<rfloor> + 1)" by linarith
  then have "2 powr log 2 x < 2 powr real_of_int (\<lfloor>log 2 x\<rfloor> + 1)" by (simp only: powr_less_cancel_iff) 
  then show "x < 2 powr real_of_int (\<lfloor>log 2 x\<rfloor> + 1)" using assms by simp
qed

lemma powr_int_nonneg: "0 \<le> k \<Longrightarrow> (2::real) powr real_of_int k = 2 ^ nat k"
  by (metis of_nat_nat powr_realpow zero_less_numeral)

lemma powr_int_neg: "k \<le> 0 \<Longrightarrow> (2::real) powr real_of_int k = 1 / 2 ^ nat (- k)"
proof -
  assume "k \<le> 0"
  then have h: "(2::real) powr real_of_int (- k) = 2 ^ nat (- k)" by (intro powr_int_nonneg) simp
  have "(2::real) powr real_of_int k = 1 / (2 powr real_of_int (- k))"
    by (simp add: powr_minus_divide)
  then show ?thesis by (simp only: h)
qed









text \<open>The doubles include every \<open>k / 2^j\<close> with \<open>|k| < 2^53\<close> and \<open>j \<le> 1074\<close>.\<close>

lemma roundPos_dyadic:
  assumes k: "0 < k" "k < 2 ^ 53" and j: "j \<le> 1074"
  shows "roundPos (real_of_int k / 2 ^ j) = real_of_int k / 2 ^ j"
proof -
  define x where "x = real_of_int k / 2 ^ j"
  define E where "E = \<lfloor>log 2 x\<rfloor>"
  define e where "e = max E (- 1022)"
  define u where "u = (2::real) powr real_of_int (e - 52)"
  have xpos: "0 < x" using k(1) by (simp add: x_def)
  have u: "0 < u" by (simp add: u_def)
  have r: "roundPos x = u * real_of_int (roundHalfEven (x / u))"
    by (simp add: roundPos_def Let_def E_def[symmetric] e_def[symmetric] u_def)
  have k53: "real_of_int k < 2 ^ 53"
    using k(2) of_int_less_iff[of k "2 ^ 53", where ?'a = real] by simp
  have "2 powr real_of_int E \<le> x" using log2_bounds(1)[OF xpos] by (simp add: E_def)
  then have "2 powr real_of_int E * 2 ^ j \<le> real_of_int k"
    by (simp add: x_def pos_le_divide_eq)
  then have "2 powr real_of_int E * 2 powr real j < 2 powr 53"
    using k53 by (simp add: powr_realpow)
  then have "2 powr (real_of_int E + real j) < (2::real) powr 53" by (simp only: powr_add)
  then have "real_of_int E + real j < 53"
    by (rule iffD1[OF powr_less_cancel_iff[of "2::real"], rotated]) simp
  then have Ej: "E + int j \<le> 52" by linarith
  have ej: "e + int j \<le> 52" using Ej j by (simp add: e_def max_def)
  define n where "n = nat (52 - e - int j)"
  have n: "int n = 52 - e - int j" using ej by (simp add: n_def)
  have "u * 2 powr real j * 2 powr real n = 2 powr (real_of_int (e - 52) + real j + real n)"
    unfolding u_def by (simp only: powr_add)
  also have "real_of_int (e - 52) + real j + real n = 0"
    using n by (simp add: algebra_simps)
  finally have one: "u * 2 ^ j * 2 ^ n = 1" by (simp add: powr_realpow)
  have xu: "x / u = real_of_int (k * 2 ^ n)"
  proof -
    have "x / u = real_of_int k / (u * 2 ^ j)" by (simp add: x_def)
    also have "u * 2 ^ j = 1 / 2 ^ n" using one by (simp add: field_simps)
    finally show ?thesis by simp
  qed
  have "roundPos x = u * real_of_int (k * 2 ^ n)"
    unfolding r xu by (simp only: roundHalfEven_int)
  also have "\<dots> = real_of_int k * (u * 2 ^ n)" by simp
  also have "u * 2 ^ n = 1 / 2 ^ j" using one by (simp add: field_simps)
  finally show ?thesis by (simp add: x_def)
qed

lemma roundDouble_dyadic:
  assumes "\<bar>k\<bar> < 2 ^ 53" and "j \<le> 1074"
  shows "roundDouble (real_of_int k / 2 ^ j) = real_of_int k / 2 ^ j"
proof (cases "0 < k")
  case True
  with assms have "roundPos (real_of_int k / 2 ^ j) = real_of_int k / 2 ^ j"
    by (intro roundPos_dyadic) auto
  then show ?thesis using True by (simp add: roundDouble_def)
next
  case False
  show ?thesis
  proof (cases "k = 0")
    case True
    then show ?thesis by (simp add: roundDouble_def)
  next
    case F: False
    with False have neg: "k < 0" by simp
    with assms have "roundPos (real_of_int (- k) / 2 ^ j) = real_of_int (- k) / 2 ^ j"
      by (intro roundPos_dyadic) auto
    moreover have "real_of_int k / 2 ^ j < 0" using neg by (simp add: divide_neg_pos)
    ultimately show ?thesis by (simp add: roundDouble_def)
  qed
qed



lemma double_limit: "(2::real) ^ 54 \<le> 2 ^ 1024 - 2 ^ 970"
  by simp

lemma inDoubleRange_small: "\<bar>x\<bar> < 2 ^ 54 \<Longrightarrow> inDoubleRange x"
  using double_limit unfolding inDoubleRange_def by linarith

lemma dayOfYearToTimeStamp_steps:
  assumes "1000 \<le> Y" and "Y \<le> 9999"
    and "roundDouble (d - 1) = days"
    and "roundDouble (days * 86400000) = ms"
    and "roundDouble (real_of_int (TimeFromYear Y) + ms) = tot"
    and "\<bar>d - 1\<bar> < 2 ^ 54" and "\<bar>days * 86400000\<bar> < 2 ^ 54"
    and "\<bar>real_of_int (TimeFromYear Y) + ms\<bar> < 2 ^ 54"
  shows "dayOfYearToTimeStamp cy d (Some Y) = Some \<lfloor>tot\<rfloor>"
proof -
  have y: "yearStartTime Y = Some (TimeFromYear Y)" using assms(1,2) by (simp add: yearStartTime_def)
  have z: "Y \<noteq> 0" using assms(1) by simp
  have r: "inDoubleRange (d - 1)" "inDoubleRange (days * 86400000)"
    "inDoubleRange (real_of_int (TimeFromYear Y) + ms)"
    using assms(6-8) by (simp_all only: inDoubleRange_small)
  show ?thesis
    unfolding dayOfYearToTimeStamp_def Let_def
    using y z r assms(3-5) by simp
qed


lemma TimeFromYear_2021: "TimeFromYear 2021 = 1609459200000"
  by (simp add: TimeFromYear_def DayFromYear_def)






lemma roundPos_binade:
  assumes "2 ^ n \<le> x" and "x < 2 ^ Suc n" and "n \<le> 52"
  shows "roundPos x = real_of_int (roundHalfEven (x * 2 ^ (52 - n))) / 2 ^ (52 - n)"
proof -
  have xpos: "0 < x" using assms(1) by (meson less_le_trans zero_less_numeral zero_less_power)
  have "real n \<le> log 2 x"
    using assms(1) xpos by (simp add: le_log_iff powr_realpow)
  moreover have "log 2 x < real n + 1"
    using assms(2) xpos by (simp add: log_less_iff powr_realpow powr_add)
  ultimately have E: "\<lfloor>log 2 x\<rfloor> = int n" by (simp add: floor_eq_iff)
  have u: "(2::real) powr (real n - 52) = 1 / 2 ^ (52 - n)"
    using powr_int_neg[of "int n - 52"] assms(3) by (simp add: nat_diff_distrib')
  show ?thesis
    by (simp add: roundPos_def Let_def E u)
qed

text \<open>A day count whose sum is carried to the next whole millisecond by the rounding of
  the double addition: \<open>d = 1.9999999999999\<close>, the double \<open>1 + 4503599627370046 / 2^52\<close>.\<close>

lemma dayOfYearToTimeStamp_rounds_up:
  "dayOfYearToTimeStamp 2026 (1 + 4503599627370046 / 2 ^ 52) (Some 2021) = Some 1609545600000
   \<and> \<lfloor>real_of_int (TimeFromYear 2021) + 4503599627370046 / 2 ^ 52 * 86400000\<rfloor>
       = 1609545599999"
proof
  have days: "roundDouble (1 + 4503599627370046 / 2 ^ 52 - 1) = 4503599627370046 / 2 ^ 52"
    using roundDouble_dyadic[of 4503599627370046 52] by simp
  have "roundPos (4503599627370046 / 2 ^ 52 * 86400000)
          = real_of_int (roundHalfEven (4503599627370046 / 2 ^ 52 * 86400000 * 2 ^ (52 - 26))) / 2 ^ (52 - 26)"
    by (rule roundPos_binade) simp_all
  also have "roundHalfEven (4503599627370046 / 2 ^ 52 * 86400000 * 2 ^ (52 - 26)) = 5798205849599421"
    by (simp add: roundHalfEven_def Let_def)
  finally have ms: "roundDouble (4503599627370046 / 2 ^ 52 * 86400000) = 5798205849599421 / 2 ^ 26"
    by (simp add: roundDouble_def)
  have "roundPos (real_of_int (TimeFromYear 2021) + 5798205849599421 / 2 ^ 26)
          = real_of_int (roundHalfEven ((real_of_int (TimeFromYear 2021) + 5798205849599421 / 2 ^ 26)
               * 2 ^ (52 - 40))) / 2 ^ (52 - 40)"
    by (rule roundPos_binade) (simp_all add: TimeFromYear_2021)
  also have "roundHalfEven ((real_of_int (TimeFromYear 2021) + 5798205849599421 / 2 ^ 26)
               * 2 ^ (52 - 40)) = 6592698777600000"
    by (simp add: roundHalfEven_def Let_def TimeFromYear_2021)
  finally have tot: "roundDouble (real_of_int (TimeFromYear 2021) + 5798205849599421 / 2 ^ 26)
                       = 1609545600000"
    by (simp add: roundDouble_def TimeFromYear_2021)
  have "dayOfYearToTimeStamp 2026 (1 + 4503599627370046 / 2 ^ 52) (Some 2021)
          = Some \<lfloor>1609545600000 :: real\<rfloor>"
    by (rule dayOfYearToTimeStamp_steps[OF _ _ days ms tot]) (simp_all add: TimeFromYear_2021)
  then show "dayOfYearToTimeStamp 2026 (1 + 4503599627370046 / 2 ^ 52) (Some 2021)
               = Some 1609545600000" by simp
  show "\<lfloor>real_of_int (TimeFromYear 2021) + 4503599627370046 / 2 ^ 52 * 86400000\<rfloor>
       = 1609545599999"
    by (simp add: TimeFromYear_2021)
qed

subsection \<open>The cache and the observer\<close>

lemma isValidTLE_parsed:
  "parseTLE x = Inr p \<Longrightarrow> isValidTLE (TParsed p) = isValidTLE x"
  by (simp add: isValidTLE_def parseTLE_def handleVariants_def)

lemma isValidTLE_Inr_parse:
  "isValidTLE x = Inr v \<Longrightarrow> \<exists>p. parseTLE x = Inr p"
  by (cases "parseTLE x") (simp_all add: isValidTLE_def)

lemma isValidTLE_True_length:
  "isValidTLE x = Inr True \<Longrightarrow> parseTLE x = Inr p \<Longrightarrow> length (arr p) = 2"
  by (cases "length (arr p) = 2") (simp_all add: isValidTLE_def)

lemma parseTLE_trimmed:
  assumes "parseTLE x = Inr p" and "\<forall>q. x = TParsed q \<longrightarrow> list_all (\<lambda>l. trim l = l) (arr q)"
  shows "map trim (arr p) = arr p"
proof (cases x)
  case (TParsed q)
  with assms have "list_all (\<lambda>l. trim l = l) (arr p)" by (simp add: parseTLE_def handleVariants_def)
  then show ?thesis by (simp add: list_all_iff map_idI)
next
  case (TString s)
  with assms(1) show ?thesis
    by (auto simp: parseTLE_def handleVariants_def Let_def trim_idem split: if_splits)
next
  case (TArray a)
  with assms(1) show ?thesis
    by (auto simp: parseTLE_def handleVariants_def Let_def trim_idem split: if_splits)
qed (use assms(1) in \<open>simp_all add: parseTLE_def handleVariants_def\<close>)

lemma parseTLE_TArray_two:
  "length a = 2 \<Longrightarrow> parseTLE (TArray a) = Inr \<lparr>name = ''Unknown'', arr = map trim a\<rparr>"
  by (simp add: parseTLE_def handleVariants_def)

lemma getSatelliteInfo_arr:
  assumes "parseTLE x = Inr p" and "parseTLE y = Inr q" and "arr p = arr q"
  shows "getSatelliteInfo E now c x ts la lo h = getSatelliteInfo E now c y ts la lo h"
  using assms by (simp add: getSatelliteInfo_def)

lemma getSatelliteInfo_error_cache:
  "getSatelliteInfo E now c x ts la lo h = (Inl e, c') \<Longrightarrow> c' = c"
  by (auto simp: getSatelliteInfo_def Let_def split: sum.splits option.splits)

lemma getSatelliteInfo_hit:
  assumes "parseTLE x = Inr p" and "c (cacheKey E (arr p) ts la lo h) = Some ob"
  shows "getSatelliteInfo E now c x ts la lo h = (Inr ob, c)"
  using assms by (simp add: getSatelliteInfo_def)

lemma getSatelliteInfo_miss:
  assumes "parseTLE x = Inr p" and "c (cacheKey E (arr p) ts la lo h) = None"
  shows "getSatelliteInfo E now c x ts la lo h =
           (case computeInfo E (arr p) (orDefault ts now) la lo h of
              Inl e \<Rightarrow> (Inl e, c)
            | Inr ob \<Rightarrow> (Inr ob, c(cacheKey E (arr p) ts la lo h \<mapsto> ob)))"
  using assms by (simp add: getSatelliteInfo_def Let_def)

lemma getSatelliteInfo_stores:
  assumes "parseTLE x = Inr p" and "getSatelliteInfo E now c x ts la lo h = (Inr ob, c')"
  shows "c' (cacheKey E (arr p) ts la lo h) = Some ob"
  using assms
  by (auto simp: getSatelliteInfo_def Let_def split: sum.splits option.splits)

lemma getSatelliteInfo_cache_grows:
  "getSatelliteInfo E now c x ts la lo h = (r, c') \<Longrightarrow> c \<subseteq>\<^sub>m c'"
  by (auto simp: getSatelliteInfo_def Let_def map_le_def split: sum.splits option.splits)

lemma computeInfo_orDefault:
  assumes "orDefault la 36.9613422 = orDefault la' 36.9613422"
    and "orDefault lo (- 122.0308) = orDefault lo' (- 122.0308)"
    and "orDefault h 0.370 = orDefault h' 0.370"
  shows "computeInfo E a t la lo h = computeInfo E a t la' lo' h'"
  using assms by (simp add: computeInfo_def)

lemma iss_valid:
  "isValidTLE (TArray [''1 25544U 98067A   21275.52719505  .00002182  00000-0  49422-4 0  9999'',
                       ''2 25544  51.6442  40.7625 0003438 154.0455 306.1756 15.48783287303096''])
     = Inr True"
  using isValidTLE_lines69_iff[OF parseTLE_iss] spec_lineValid_iss by simp

lemma iss_invalid:
  "isValidTLE (TArray [''1 25544U 98067A   21275.52719505  .00002182  00000-0  49422-4 0  9990'',
                       ''2 25544  51.6442  40.7625 0003438 154.0455 306.1756 15.48783287303096''])
     = Inr False"
proof -
  have p: "parseTLE (TArray [''1 25544U 98067A   21275.52719505  .00002182  00000-0  49422-4 0  9990'',
                       ''2 25544  51.6442  40.7625 0003438 154.0455 306.1756 15.48783287303096''])
     = Inr \<lparr>name = ''Unknown'', arr = [''1 25544U 98067A   21275.52719505  .00002182  00000-0  49422-4 0  9990'',
                       ''2 25544  51.6442  40.7625 0003438 154.0455 306.1756 15.48783287303096'']\<rparr>"
    by (simp add: parseTLE_def handleVariants_def trim_def isWhiteSpace_def)
  have "\<not> spec_lineValid 1 ''1 25544U 98067A   21275.52719505  .00002182  00000-0  49422-4 0  9990''"
    by (simp add: spec_lineValid_def showNat.simps spec_checksum_def contribution_def isDigit_def
      digitVal_def char_of_def bit_Suc_0_iff)
  then show ?thesis using isValidTLE_lines69_iff[OF p] by simp
qed

lemma demo_compute:
  "computeInfo demoEnv a t la lo h =
     Inr \<lparr>lng = 2, lat = 1, elevation = 0, azimuth = 0, range' = orDefault h 0.370,
          height = t, velocityKmS = 0\<rparr>"
  by (simp add: computeInfo_def demoEnv_def radiansToDegrees_def)

lemma demo_fresh:
  "parseTLE x = Inr p \<Longrightarrow>
   fst (getSatelliteInfo demoEnv now Map.empty x ts la lo h) =
     Inr \<lparr>lng = 2, lat = 1, elevation = 0, azimuth = 0, range' = orDefault h 0.370,
          height = orDefault ts now, velocityKmS = 0\<rparr>"
  by (simp add: getSatelliteInfo_miss demo_compute)

lemma getLookAngles_eq:
  "getLookAngles E now c x ts la lo h =
     (case getSatelliteInfo E now c x ts None None None of
        (Inl e, c') \<Rightarrow> (Inl e, c')
      | (Inr ob, c') \<Rightarrow> (Inr (spec_lookAngles ob), c'))"
  by (simp add: getLookAngles_def spec_lookAngles_def split: prod.splits sum.splits)

text \<open>
  Claim C5. The claim: \<open>getLookAngles(record, timestamp, observer)\<close> returns the elevation,
  azimuth and range of the observation that \<open>getSatelliteInfo\<close> computes for the same
  record, timestamp and observer. The code takes \<open>lat\<close>, \<open>lng\<close> and \<open>height\<close> and passes none
  of them on: for every observer it returns the look angles of the call
  \<open>getSatelliteInfo(record, timestamp)\<close>, which are those of the default observer. With the
  stand-in library, a fresh cache and an observer at height 5, \<open>getLookAngles\<close> reports the
  range of the default observer, 0.370, where \<open>getSatelliteInfo\<close> for that observer reports 5.
\<close>

theorem getLookAngles_ignores_observer:
  "getLookAngles E now c x ts la lo h =
     (case getSatelliteInfo E now c x ts None None None of
        (Inl e, c') \<Rightarrow> (Inl e, c')
      | (Inr ob, c') \<Rightarrow> (Inr (spec_lookAngles ob), c'))
   \<and> map_sum id range_la
       (fst (getLookAngles demoEnv 0 Map.empty
          (TArray [''1 25544U 98067A   21275.52719505  .00002182  00000-0  49422-4 0  9999'',
                   ''2 25544  51.6442  40.7625 0003438 154.0455 306.1756 15.48783287303096''])
          (Some 1000) (Some 10) (Some 20) (Some 5)))
     = Inr 0.370
   \<and> map_sum id (\<lambda>ob. range_la (spec_lookAngles ob))
       (fst (getSatelliteInfo demoEnv 0 Map.empty
          (TArray [''1 25544U 98067A   21275.52719505  .00002182  00000-0  49422-4 0  9999'',
                   ''2 25544  51.6442  40.7625 0003438 154.0455 306.1756 15.48783287303096''])
          (Some 1000) (Some 10) (Some 20) (Some 5)))
     = Inr 5"
proof (intro conjI)
  let ?x = "TArray [''1 25544U 98067A   21275.52719505  .00002182  00000-0  49422-4 0  9999'',
                   ''2 25544  51.6442  40.7625 0003438 154.0455 306.1756 15.48783287303096'']"
  show "getLookAngles E now c x ts la lo h =
     (case getSatelliteInfo E now c x ts None None None of
        (Inl e, c') \<Rightarrow> (Inl e, c')
      | (Inr ob, c') \<Rightarrow> (Inr (spec_lookAngles ob), c'))"
    by (rule getLookAngles_eq)
  have "fst (getLookAngles demoEnv 0 Map.empty ?x (Some 1000) (Some 10) (Some 20) (Some 5))
          = map_sum id spec_lookAngles
              (fst (getSatelliteInfo demoEnv 0 Map.empty ?x (Some 1000) None None None))"
    unfolding getLookAngles_eq
    by (cases "getSatelliteInfo demoEnv 0 Map.empty ?x (Some 1000) None None None";
        cases "fst (getSatelliteInfo demoEnv 0 Map.empty ?x (Some 1000) None None None)") simp_all
  then show "map_sum id range_la
       (fst (getLookAngles demoEnv 0 Map.empty ?x (Some 1000) (Some 10) (Some 20) (Some 5)))
     = Inr 0.370"
    by (simp add: demo_fresh[OF parseTLE_iss] spec_lookAngles_def orDefault_def)
  show "map_sum id (\<lambda>ob. range_la (spec_lookAngles ob))
       (fst (getSatelliteInfo demoEnv 0 Map.empty ?x (Some 1000) (Some 10) (Some 20) (Some 5)))
     = Inr 5"
    by (simp add: demo_fresh[OF parseTLE_iss] spec_lookAngles_def orDefault_def)
qed

text \<open>
  Claim C7. \<open>getLatLon\<close> validates before it computes. When \<open>isValidTLE\<close> returns false it
  raises the error \<open>TLE could not be parsed\<close> and leaves the cache as it was. When
  \<open>isValidTLE\<close> returns true it returns the \<open>lat\<close> and \<open>lng\<close> of the observation that
  \<open>getSatelliteInfo\<close> produces for the lines of the record, the timestamp and no observer;
  for a string, an array, or a record whose lines are trimmed, that is the call
  \<open>getSatelliteInfo(record, timestamp)\<close>. When the validator itself raises (a line of
  fewer than two characters, an input of a wrong type) that error is passed on. Whenever
  \<open>getLatLon\<close> raises, the cache is unchanged.
\<close>

theorem getLatLon_validates_first:
  "(isValidTLE x = Inr False \<longrightarrow>
      getLatLon E now c x ts = (Inl (Error ''TLE could not be parsed''), c))
   \<and> (isValidTLE x = Inr True \<longrightarrow>
        (\<exists>p. parseTLE x = Inr p \<and>
          getLatLon E now c x ts =
            (case getSatelliteInfo E now c (TArray (arr p)) ts None None None of
               (Inl e, c') \<Rightarrow> (Inl e, c')
             | (Inr ob, c') \<Rightarrow> (Inr \<lparr>lat_ll = lat ob, lng_ll = lng ob\<rparr>, c')) \<and>
          ((\<forall>q. x = TParsed q \<longrightarrow> list_all (\<lambda>l. trim l = l) (arr q)) \<longrightarrow>
             getSatelliteInfo E now c (TArray (arr p)) ts None None None
               = getSatelliteInfo E now c x ts None None None)))
   \<and> (\<forall>e. isValidTLE x = Inl e \<longrightarrow> getLatLon E now c x ts = (Inl e, c))
   \<and> (\<forall>e c'. getLatLon E now c x ts = (Inl e, c') \<longrightarrow> c' = c)"
proof (intro conjI impI allI)
  assume f: "isValidTLE x = Inr False"
  then obtain p where p: "parseTLE x = Inr p" using isValidTLE_Inr_parse by blast
  then show "getLatLon E now c x ts = (Inl (Error ''TLE could not be parsed''), c)"
    using f isValidTLE_parsed[OF p] by (simp add: getLatLon_def)
next
  assume t: "isValidTLE x = Inr True"
  then obtain p where p: "parseTLE x = Inr p" using isValidTLE_Inr_parse by blast
  have g: "getLatLon E now c x ts =
            (case getSatelliteInfo E now c (TArray (arr p)) ts None None None of
               (Inl e, c') \<Rightarrow> (Inl e, c')
             | (Inr ob, c') \<Rightarrow> (Inr \<lparr>lat_ll = lat ob, lng_ll = lng ob\<rparr>, c'))"
    using t p isValidTLE_parsed[OF p] by (simp add: getLatLon_def)
  have two: "length (arr p) = 2" using t p by (rule isValidTLE_True_length)
  have s: "getSatelliteInfo E now c (TArray (arr p)) ts None None None
               = getSatelliteInfo E now c x ts None None None"
    if "\<forall>q. x = TParsed q \<longrightarrow> list_all (\<lambda>l. trim l = l) (arr q)"
  proof -
    have "map trim (arr p) = arr p" using p that by (rule parseTLE_trimmed)
    then have "arr \<lparr>name = ''Unknown'', arr = map trim (arr p)\<rparr> = arr p" by simp
    from getSatelliteInfo_arr[OF parseTLE_TArray_two[OF two] p this] show ?thesis .
  qed
  show "\<exists>p. parseTLE x = Inr p \<and>
          getLatLon E now c x ts =
            (case getSatelliteInfo E now c (TArray (arr p)) ts None None None of
               (Inl e, c') \<Rightarrow> (Inl e, c')
             | (Inr ob, c') \<Rightarrow> (Inr \<lparr>lat_ll = lat ob, lng_ll = lng ob\<rparr>, c')) \<and>
          ((\<forall>q. x = TParsed q \<longrightarrow> list_all (\<lambda>l. trim l = l) (arr q)) \<longrightarrow>
             getSatelliteInfo E now c (TArray (arr p)) ts None None None
               = getSatelliteInfo E now c x ts None None None)"
    using p g s by blast
next
  fix e assume "isValidTLE x = Inl e"
  then show "getLatLon E now c x ts = (Inl e, c)"
    by (cases "parseTLE x") (simp_all add: getLatLon_def isValidTLE_def parseTLE_def handleVariants_def)
next
  fix e c' assume r: "getLatLon E now c x ts = (Inl e, c')"
  show "c' = c"
  proof (cases "parseTLE x")
    case (Inl a)
    with r show ?thesis by (simp add: getLatLon_def)
  next
    case (Inr p)
    show ?thesis
    proof (cases "isValidTLE (TParsed p)")
      case (Inl a)
      with r Inr show ?thesis by (simp add: getLatLon_def)
    next
      case v: (Inr valid)
      show ?thesis
      proof (cases valid)
        case False
        with r Inr v show ?thesis by (simp add: getLatLon_def)
      next
        case True
        obtain res c2 where g: "getSatelliteInfo E now c (TArray (arr p)) ts None None None = (res, c2)"
          by (cases "getSatelliteInfo E now c (TArray (arr p)) ts None None None") auto
        with r Inr v True obtain e2 where "res = Inl e2" "c2 = c'"
          by (cases res) (simp_all add: getLatLon_def)
        with g show ?thesis using getSatelliteInfo_error_cache by blast
      qed
    qed
  qed
qed

text \<open>The theorem with the stand-in library and a fresh cache: at the record of two valid
  lines, and at the same record with a wrong checksum digit on line 1.\<close>

theorem getLatLon_validates_first_witness:
  "fst (getLatLon demoEnv 1000 Map.empty
     (TArray [''1 25544U 98067A   21275.52719505  .00002182  00000-0  49422-4 0  9999'',
              ''2 25544  51.6442  40.7625 0003438 154.0455 306.1756 15.48783287303096''])
     (Some 5)) = Inr \<lparr>lat_ll = 1, lng_ll = 2\<rparr>
   \<and> getLatLon demoEnv 1000 Map.empty
     (TArray [''1 25544U 98067A   21275.52719505  .00002182  00000-0  49422-4 0  9990'',
              ''2 25544  51.6442  40.7625 0003438 154.0455 306.1756 15.48783287303096''])
     (Some 5) = (Inl (Error ''TLE could not be parsed''), Map.empty)"
proof
  let ?l = "[''1 25544U 98067A   21275.52719505  .00002182  00000-0  49422-4 0  9999'',
              ''2 25544  51.6442  40.7625 0003438 154.0455 306.1756 15.48783287303096'']"
  from getLatLon_validates_first[of "TArray ?l" demoEnv 1000 Map.empty "Some 5"] iss_valid
  obtain p where p: "parseTLE (TArray ?l) = Inr p"
    and g: "getLatLon demoEnv 1000 Map.empty (TArray ?l) (Some 5) =
            (case getSatelliteInfo demoEnv 1000 Map.empty (TArray (arr p)) (Some 5) None None None of
               (Inl e, c') \<Rightarrow> (Inl e, c')
             | (Inr ob, c') \<Rightarrow> (Inr \<lparr>lat_ll = lat ob, lng_ll = lng ob\<rparr>, c'))"
    by blast
  from p parseTLE_iss have a: "arr p = ?l" by auto
  obtain r c' where s: "getSatelliteInfo demoEnv 1000 Map.empty (TArray ?l) (Some 5) None None None = (r, c')"
    by (cases "getSatelliteInfo demoEnv 1000 Map.empty (TArray ?l) (Some 5) None None None") auto
  with demo_fresh[OF parseTLE_iss, of 1000 "Some 5" None None None]
  have "r = Inr \<lparr>lng = 2, lat = 1, elevation = 0, azimuth = 0, range' = orDefault None 0.370,
          height = orDefault (Some 5) 1000, velocityKmS = 0\<rparr>" by simp
  with g a s show "fst (getLatLon demoEnv 1000 Map.empty (TArray ?l) (Some 5))
                     = Inr \<lparr>lat_ll = 1, lng_ll = 2\<rparr>" by simp
next
  show "getLatLon demoEnv 1000 Map.empty
     (TArray [''1 25544U 98067A   21275.52719505  .00002182  00000-0  49422-4 0  9990'',
              ''2 25544  51.6442  40.7625 0003438 154.0455 306.1756 15.48783287303096''])
     (Some 5) = (Inl (Error ''TLE could not be parsed''), Map.empty)"
    using getLatLon_validates_first[of "TArray [''1 25544U 98067A   21275.52719505  .00002182  00000-0  49422-4 0  9990'',
              ''2 25544  51.6442  40.7625 0003438 154.0455 306.1756 15.48783287303096'']"
        demoEnv 1000 Map.empty "Some 5"] iss_invalid
    by blast
qed

lemma getSatelliteInfo_entryCurrent:
  assumes "parseTLE x = Inr p" and "entryCurrent E now c (arr p) ts la lo h"
  shows "fst (getSatelliteInfo E now c x ts la lo h)
           = computeInfo E (arr p) (orDefault ts now) la lo h"
proof (cases "c (cacheKey E (arr p) ts la lo h)")
  case None
  from getSatelliteInfo_miss[where c = c and E = E and ts = ts and la = la and lo = lo
      and h = h and now = now, OF assms(1) None]
  show ?thesis by (cases "computeInfo E (arr p) (orDefault ts now) la lo h") simp_all
next
  case (Some ob)
  with assms(2) have "computeInfo E (arr p) (orDefault ts now) la lo h = Inr ob"
    by (simp add: entryCurrent_def)
  moreover from getSatelliteInfo_hit[where c = c and E = E and ts = ts and la = la and lo = lo
      and h = h and now = now, OF assms(1) Some]
  have "fst (getSatelliteInfo E now c x ts la lo h) = Inr ob" by simp
  ultimately show ?thesis by simp
qed

text \<open>An entry stored by a call with a timestamp other than 0 is current at every later
  time; an empty cache has only current entries.\<close>

lemma entryCurrent_after_call:
  assumes "parseTLE x = Inr p" and "t \<noteq> 0"
    and "c (cacheKey E (arr p) (Some t) la lo h) = None"
    and "getSatelliteInfo E now_first c x (Some t) la lo h = (Inr ob, c_left)"
  shows "entryCurrent E now_later c_left (arr p) (Some t) la lo h"
proof -
  from getSatelliteInfo_miss[where c = c and E = E and ts = "Some t" and la = la and lo = lo
      and h = h and now = now_first, OF assms(1,3)] assms(2,4)
  have "computeInfo E (arr p) t la lo h = Inr ob"
    and "c_left = c(cacheKey E (arr p) (Some t) la lo h \<mapsto> ob)"
    by (cases "computeInfo E (arr p) t la lo h"; simp add: orDefault_def)+
  with assms(2) show ?thesis by (simp add: entryCurrent_def orDefault_def)
qed

lemma entryCurrent_empty: "entryCurrent E now Map.empty a ts la lo h"
  by (simp add: entryCurrent_def)

text \<open>
  Claim C9, amended. What \<open>getSatelliteInfo\<close> computes after the cache lookup is what it
  computes when each observer coordinate that is omitted or 0 is replaced by the default
  (latitude 36.9613422, longitude -122.0308, height 0.370). So two calls for the same
  record and timestamp whose observer coordinates agree once every omitted or zero
  coordinate is replaced by its default (a coordinate given as 0 against that coordinate
  omitted) return the same observation, provided that for each of the two calls the cache
  holds no entry under the key of the call, or holds the observation the call would
  compute now. A cached entry is returned as it is, and the two calls have different keys.
\<close>

theorem getSatelliteInfo_falsy_observer:
  assumes "parseTLE x = Inr p"
    and "orDefault la 36.9613422 = orDefault la' 36.9613422"
    and "orDefault lo (- 122.0308) = orDefault lo' (- 122.0308)"
    and "orDefault h 0.370 = orDefault h' 0.370"
    and "entryCurrent E now c (arr p) ts la lo h"
    and "entryCurrent E now c (arr p) ts la' lo' h'"
  shows "computeInfo E (arr p) t la lo h
           = computeInfo E (arr p) t (Some (orDefault la 36.9613422))
               (Some (orDefault lo (- 122.0308))) (Some (orDefault h 0.370))
       \<and> fst (getSatelliteInfo E now c x ts la lo h)
           = fst (getSatelliteInfo E now c x ts la' lo' h')"
proof
  show "computeInfo E (arr p) t la lo h
           = computeInfo E (arr p) t (Some (orDefault la 36.9613422))
               (Some (orDefault lo (- 122.0308))) (Some (orDefault h 0.370))"
    by (rule computeInfo_orDefault) (simp_all add: orDefault_def split: option.splits)
  show "fst (getSatelliteInfo E now c x ts la lo h) = fst (getSatelliteInfo E now c x ts la' lo' h')"
    unfolding getSatelliteInfo_entryCurrent[OF assms(1,5)]
      getSatelliteInfo_entryCurrent[OF assms(1,6)]
    using assms(2-4) by (rule computeInfo_orDefault)
qed

lemma demo_keys_differ:
  "cacheKey demoEnv a ts la lo (Some 0) \<noteq> cacheKey demoEnv a ts la lo None"
  by (simp add: cacheKey_def renderNum_def demoEnv_def showNat.simps char_of_def bit_Suc_0_iff)

text \<open>The theorem with the stand-in library, on the cache left by an earlier call with
  timestamp 5 and height 0: at a later time the call with height 0 is answered from the
  cache, the call with the height omitted computes, and both report the range of the
  default height.\<close>

theorem getSatelliteInfo_falsy_observer_witness:
  "fst (getSatelliteInfo demoEnv 2000
     (snd (getSatelliteInfo demoEnv 1000 Map.empty
        (TArray [''1 25544U 98067A   21275.52719505  .00002182  00000-0  49422-4 0  9999'',
                 ''2 25544  51.6442  40.7625 0003438 154.0455 306.1756 15.48783287303096''])
        (Some 5) None None (Some 0)))
     (TArray [''1 25544U 98067A   21275.52719505  .00002182  00000-0  49422-4 0  9999'',
              ''2 25544  51.6442  40.7625 0003438 154.0455 306.1756 15.48783287303096''])
     (Some 5) None None (Some 0))
   = fst (getSatelliteInfo demoEnv 2000
     (snd (getSatelliteInfo demoEnv 1000 Map.empty
        (TArray [''1 25544U 98067A   21275.52719505  .00002182  00000-0  49422-4 0  9999'',
                 ''2 25544  51.6442  40.7625 0003438 154.0455 306.1756 15.48783287303096''])
        (Some 5) None None (Some 0)))
     (TArray [''1 25544U 98067A   21275.52719505  .00002182  00000-0  49422-4 0  9999'',
              ''2 25544  51.6442  40.7625 0003438 154.0455 306.1756 15.48783287303096''])
     (Some 5) None None None)
   \<and> computeInfo demoEnv
        [''1 25544U 98067A   21275.52719505  .00002182  00000-0  49422-4 0  9999'',
         ''2 25544  51.6442  40.7625 0003438 154.0455 306.1756 15.48783287303096'']
        5 None None (Some 0)
     = Inr \<lparr>lng = 2, lat = 1, elevation = 0, azimuth = 0, range' = 0.370, height = 5,
            velocityKmS = 0\<rparr>"
proof -
  let ?l = "[''1 25544U 98067A   21275.52719505  .00002182  00000-0  49422-4 0  9999'',
             ''2 25544  51.6442  40.7625 0003438 154.0455 306.1756 15.48783287303096'']"
  let ?p = "\<lparr>name = ''Unknown'', arr = ?l\<rparr>"
  obtain r c1 where s: "getSatelliteInfo demoEnv 1000 Map.empty (TArray ?l) (Some 5) None None (Some 0) = (r, c1)"
    by (cases "getSatelliteInfo demoEnv 1000 Map.empty (TArray ?l) (Some 5) None None (Some 0)") auto
  have c1: "c1 = Map.empty(cacheKey demoEnv ?l (Some 5) None None (Some 0) \<mapsto>
              \<lparr>lng = 2, lat = 1, elevation = 0, azimuth = 0, range' = 0.370, height = 5,
               velocityKmS = 0\<rparr>)"
    using getSatelliteInfo_miss[where c = Map.empty and E = demoEnv and ts = "Some 5"
        and la = None and lo = None and h = "Some 0" and now = 1000, OF parseTLE_iss] s
    by (simp add: demo_compute orDefault_def)
  have e1: "entryCurrent demoEnv 2000 c1 (arr ?p) (Some 5) None None (Some 0)"
    by (simp add: entryCurrent_def c1 demo_compute orDefault_def)
  have e2: "entryCurrent demoEnv 2000 c1 (arr ?p) (Some 5) None None None"
    using demo_keys_differ[of ?l "Some 5" None None]
    by (simp add: entryCurrent_def c1 del: fun_upd_apply) (simp add: fun_upd_def)
  have o: "orDefault None 36.9613422 = orDefault None 36.9613422"
    "orDefault None (- 122.0308) = orDefault None (- 122.0308)"
    "orDefault (Some 0) 0.370 = orDefault None 0.370"
    by (simp_all add: orDefault_def)
  from getSatelliteInfo_falsy_observer[where t = 5, OF parseTLE_iss o e1 e2]
  show ?thesis unfolding s snd_conv by (simp add: demo_compute orDefault_def)
qed

text \<open>
  Claim C9 as stated fails on a cache that an earlier call has filled. A first call with
  timestamp 0 and no observer, at time 1000, stores its observation. At time 2000, on the
  cache it left, the call with timestamp 0 and height 0 finds no entry under its key and
  computes for time 2000; the call with timestamp 0 and the height omitted finds the
  entry of the first call and returns the observation for time 1000. (The stand-in
  library reports the propagation time as the height of the satellite.)
\<close>

theorem getSatelliteInfo_falsy_observer_counterexample:
  "map_sum id height
     (fst (getSatelliteInfo demoEnv 2000
        (snd (getSatelliteInfo demoEnv 1000 Map.empty
           (TArray [''1 25544U 98067A   21275.52719505  .00002182  00000-0  49422-4 0  9999'',
                    ''2 25544  51.6442  40.7625 0003438 154.0455 306.1756 15.48783287303096''])
           (Some 0) None None None))
        (TArray [''1 25544U 98067A   21275.52719505  .00002182  00000-0  49422-4 0  9999'',
                 ''2 25544  51.6442  40.7625 0003438 154.0455 306.1756 15.48783287303096''])
        (Some 0) None None (Some 0)))
     = Inr 2000
   \<and> map_sum id height
     (fst (getSatelliteInfo demoEnv 2000
        (snd (getSatelliteInfo demoEnv 1000 Map.empty
           (TArray [''1 25544U 98067A   21275.52719505  .00002182  00000-0  49422-4 0  9999'',
                    ''2 25544  51.6442  40.7625 0003438 154.0455 306.1756 15.48783287303096''])
           (Some 0) None None None))
        (TArray [''1 25544U 98067A   21275.52719505  .00002182  00000-0  49422-4 0  9999'',
                 ''2 25544  51.6442  40.7625 0003438 154.0455 306.1756 15.48783287303096''])
        (Some 0) None None None))
     = Inr 1000"
proof -
  let ?l = "[''1 25544U 98067A   21275.52719505  .00002182  00000-0  49422-4 0  9999'',
             ''2 25544  51.6442  40.7625 0003438 154.0455 306.1756 15.48783287303096'']"
  obtain r c1 where s: "getSatelliteInfo demoEnv 1000 Map.empty (TArray ?l) (Some 0) None None None = (r, c1)"
    by (cases "getSatelliteInfo demoEnv 1000 Map.empty (TArray ?l) (Some 0) None None None") auto
  have c1: "c1 = Map.empty(cacheKey demoEnv ?l (Some 0) None None None \<mapsto>
              \<lparr>lng = 2, lat = 1, elevation = 0, azimuth = 0, range' = 0.370, height = 1000,
               velocityKmS = 0\<rparr>)"
    using getSatelliteInfo_miss[where c = Map.empty and E = demoEnv and ts = "Some 0"
        and la = None and lo = None and h = None and now = 1000, OF parseTLE_iss] s
    by (simp add: demo_compute orDefault_def)
  have hit: "getSatelliteInfo demoEnv 2000 c1 (TArray ?l) (Some 0) None None None
               = (Inr \<lparr>lng = 2, lat = 1, elevation = 0, azimuth = 0, range' = 0.370,
                        height = 1000, velocityKmS = 0\<rparr>, c1)"
    by (rule getSatelliteInfo_hit[OF parseTLE_iss]) (simp add: c1)
  have "c1 (cacheKey demoEnv ?l (Some 0) None None (Some 0)) = None"
    using demo_keys_differ[of ?l "Some 0" None None]
    by (simp add: c1 del: fun_upd_apply) (simp add: fun_upd_def)
  from getSatelliteInfo_miss[where c = c1 and E = demoEnv and ts = "Some 0"
        and la = None and lo = None and h = "Some 0" and now = 2000, OF parseTLE_iss] this
  have miss: "fst (getSatelliteInfo demoEnv 2000 c1 (TArray ?l) (Some 0) None None (Some 0))
               = Inr \<lparr>lng = 2, lat = 1, elevation = 0, azimuth = 0, range' = 0.370,
                        height = 2000, velocityKmS = 0\<rparr>"
    by (simp add: demo_compute orDefault_def)
  show ?thesis unfolding s snd_conv using hit miss by simp
qed

text \<open>
  Claim C10. The cache key is built from the \<open>timestamp\<close> argument, not from the time used
  for propagation. So for an omitted (or zero) timestamp: once a call has returned an
  observation, every later call with the same record, the same omitted timestamp and the
  same observer arguments, on that cache or any cache grown from it, returns that same
  observation whatever the current time is; and if the first call found no entry, its
  observation is the one computed for the time of that first call.
\<close>

theorem getSatelliteInfo_falsy_timestamp_cached:
  assumes "parseTLE x = Inr p"
    and "ts = None \<or> ts = Some 0"
    and "getSatelliteInfo E now_first c_first x ts la lo h = (Inr ob, c_left)"
    and "c_left \<subseteq>\<^sub>m c_later"
  shows "getSatelliteInfo E now_later c_later x ts la lo h = (Inr ob, c_later)
       \<and> (c_first (cacheKey E (arr p) ts la lo h) = None \<longrightarrow>
            computeInfo E (arr p) now_first la lo h = Inr ob)"
proof
  have "c_left (cacheKey E (arr p) ts la lo h) = Some ob"
    using assms(1,3) by (rule getSatelliteInfo_stores)
  with assms(4) have "c_later (cacheKey E (arr p) ts la lo h) = Some ob"
    by (auto simp: map_le_def dom_def)
  with assms(1) show "getSatelliteInfo E now_later c_later x ts la lo h = (Inr ob, c_later)"
    by (rule getSatelliteInfo_hit)
next
  have t: "orDefault ts now_first = now_first" using assms(2) by (auto simp: orDefault_def)
  show "c_first (cacheKey E (arr p) ts la lo h) = None \<longrightarrow> computeInfo E (arr p) now_first la lo h = Inr ob"
  proof
    assume "c_first (cacheKey E (arr p) ts la lo h) = None"
    from getSatelliteInfo_miss[where c = c_first and E = E and ts = ts and la = la and lo = lo
        and h = h and now = now_first, OF assms(1) this] assms(3) t
    show "computeInfo E (arr p) now_first la lo h = Inr ob"
      by (cases "computeInfo E (arr p) now_first la lo h") simp_all
  qed
qed

text \<open>The theorem with the stand-in library, whose reported height is the propagation
  time: a first call at time 1000 on a fresh cache, then a call at time 2000 on the cache
  the first call left. The second call reports the height 1000.\<close>

theorem getSatelliteInfo_falsy_timestamp_cached_witness:
  "map_sum id height
     (fst (getSatelliteInfo demoEnv 2000
        (snd (getSatelliteInfo demoEnv 1000 Map.empty
           (TArray [''1 25544U 98067A   21275.52719505  .00002182  00000-0  49422-4 0  9999'',
                    ''2 25544  51.6442  40.7625 0003438 154.0455 306.1756 15.48783287303096''])
           None None None None))
        (TArray [''1 25544U 98067A   21275.52719505  .00002182  00000-0  49422-4 0  9999'',
                 ''2 25544  51.6442  40.7625 0003438 154.0455 306.1756 15.48783287303096''])
        None None None None))
   = Inr 1000"
proof -
  let ?x = "TArray [''1 25544U 98067A   21275.52719505  .00002182  00000-0  49422-4 0  9999'',
                    ''2 25544  51.6442  40.7625 0003438 154.0455 306.1756 15.48783287303096'']"
  obtain r c1 where s: "getSatelliteInfo demoEnv 1000 Map.empty ?x None None None None = (r, c1)"
    by (cases "getSatelliteInfo demoEnv 1000 Map.empty ?x None None None None") auto
  with demo_fresh[OF parseTLE_iss, of 1000 None None None None]
  have r: "r = Inr \<lparr>lng = 2, lat = 1, elevation = 0, azimuth = 0, range' = orDefault None 0.370,
          height = orDefault None 1000, velocityKmS = 0\<rparr>" by simp
  have "c1 \<subseteq>\<^sub>m c1" by simp
  from getSatelliteInfo_falsy_timestamp_cached[where now_later = 2000,
      OF parseTLE_iss _ s[unfolded r] this]
  show ?thesis using s by (simp add: orDefault_def)
qed

end
